theory Spec2Isabelle
  imports
    Main
    "HOL-Library.Sublist"
    "HOL-Library.Char_ord"
    "HOL-Library.List_Lexorder"
    "HOL-Library.AList"
begin

section \<open>Strings\<close>

text \<open>
  Strings are byte lists. DynamoDB orders string sort keys by their UTF-8 bytes, which is
  the lexicographic order on \<open>char list\<close> that \<open>Char_ord\<close> and \<open>List_Lexorder\<close>
  provide. Python's \<open>s.startswith(p)\<close> is \<open>prefix p s\<close>.
\<close>

definition startswith :: "string \<Rightarrow> string \<Rightarrow> bool" where
  "startswith s p = prefix p s"

section \<open>Python values\<close>

text \<open>
  Exceptions are values. \<open>ConditionalCheckFailedException\<close> is raised by a conditional
  \<open>update_item\<close>; \<open>NoSuchKey\<close> and \<open>NoSuchVersion\<close> by the object store when the
  object or version asked for is not there; \<open>InvalidRequest\<close> by \<open>copy_object\<close> on a
  source that is too large; \<open>KeyError\<close> by a dictionary subscript.
\<close>

datatype error =
    ConditionalCheckFailedException
  | NoSuchKey
  | NoSuchVersion
  | InvalidRequest
  | KeyError string

text \<open>Truth value of an optional string: \<open>None\<close> and the empty string are false.\<close>

definition truthy :: "string option \<Rightarrow> bool" where
  "truthy v = (case v of None \<Rightarrow> False | Some s \<Rightarrow> s \<noteq> [])"

text \<open>An optional string inside an f-string: \<open>None\<close> prints as \<open>None\<close>.\<close>

definition format_opt :: "string option \<Rightarrow> string" where
  "format_opt v = (case v of None \<Rightarrow> ''None'' | Some s \<Rightarrow> s)"

section \<open>The mapping table\<close>

text \<open>
  The prefix-to-key mapping table has partition key \<open>bucket_name\<close> and sort key
  \<open>prefix\<close>. An item carries the four attributes that \<open>insert_ddb_items\<close> and
  \<open>update_ddb_items\<close> write. The table is an association list from primary keys to
  items; a DynamoDB table holds one item per primary key, which is \<open>table_ok\<close>.
\<close>

type_synonym ddb_key = "string \<times> string"

record mapping_item =
  kms_key_arn :: string
  dual_layer_encryption :: bool
  insert_ts :: string
  last_update_ts :: string

type_synonym mapping_table = "(ddb_key \<times> mapping_item) list"

definition table_ok :: "(ddb_key \<times> 'v) list \<Rightarrow> bool" where
  "table_ok tbl = distinct (map fst tbl)"

section \<open>Policy resolver (fix\_encryption.py)\<close>

text \<open>
  The items that satisfy \<open>KeyConditionExpression = 'bucket_name = :bucket_name and prefix
  <= :object_name'\<close>, in the order of \<open>ScanIndexForward = False\<close>: the items of the
  bucket whose sort key is at most the object name, in descending order of the sort key.
\<close>

definition candidates_desc ::
  "mapping_table \<Rightarrow> string \<Rightarrow> string \<Rightarrow> (ddb_key \<times> mapping_item) list" where
  "candidates_desc tbl bucket_name object_name =
     rev (sort_key (\<lambda>it. snd (fst it))
       (filter (\<lambda>it. fst (fst it) = bucket_name \<and> snd (fst it) \<le> object_name) tbl))"

text \<open>
  One call of \<open>ddb.query\<close> answers with one page: DynamoDB reads items in order until
  their sizes add up to 1 MB, and leaves the rest to a next call with
  \<open>ExclusiveStartKey\<close>. The size of an item is the sum of the lengths of its attribute
  names and values, a Boolean counting one byte.
\<close>

definition ddb_page_limit :: nat where
  "ddb_page_limit = 1048576"

definition mapping_item_size :: "ddb_key \<times> mapping_item \<Rightarrow> nat" where
  "mapping_item_size it =
     length ''bucket_name'' + length (fst (fst it))
     + length ''prefix'' + length (snd (fst it))
     + length ''kms_key_arn'' + length (kms_key_arn (snd it))
     + length ''dual_layer_encryption'' + 1
     + length ''insert_ts'' + length (insert_ts (snd it))
     + length ''last_update_ts'' + length (last_update_ts (snd it))"

fun first_page ::
  "nat \<Rightarrow> (ddb_key \<times> mapping_item) list \<Rightarrow> (ddb_key \<times> mapping_item) list" where
  "first_page room [] = []"
| "first_page room (it # its) =
     (if mapping_item_size it \<le> room
      then it # first_page (room - mapping_item_size it) its
      else [])"

text \<open>
  The \<open>ddb.query\<close> call of \<open>get_kms_key_info_for_s3_prefix\<close>. The source makes this one
  call and reads \<open>result['Items']\<close>; it does not look at \<open>LastEvaluatedKey\<close>.
\<close>

definition query_prefix_le ::
  "mapping_table \<Rightarrow> string \<Rightarrow> string \<Rightarrow> (ddb_key \<times> mapping_item) list" where
  "query_prefix_le tbl bucket_name object_name =
     first_page ddb_page_limit (candidates_desc tbl bucket_name object_name)"

record kms_key_info =
  info_kms_key_arn :: string
  info_dual_layer_encryption :: bool

text \<open>The \<open>for item in result['Items']\<close> loop, leaving at the first match.\<close>

fun best_match :: "string \<Rightarrow> (ddb_key \<times> mapping_item) list \<Rightarrow> kms_key_info option" where
  "best_match object_name [] = None"
| "best_match object_name (item # items) =
     (if startswith object_name (snd (fst item))
      then Some \<lparr>info_kms_key_arn = kms_key_arn (snd item),
                 info_dual_layer_encryption = dual_layer_encryption (snd item)\<rparr>
      else best_match object_name items)"

definition get_kms_key_info_for_s3_prefix ::
  "mapping_table \<Rightarrow> string \<Rightarrow> string \<Rightarrow> kms_key_info option" where
  "get_kms_key_info_for_s3_prefix tbl bucket_name object_name =
     best_match object_name (query_prefix_le tbl bucket_name object_name)"

section \<open>The audit log table\<close>

text \<open>
  The log table has partition key \<open>s3_object_path\<close> and sort key
  \<open>current_timestamp_utc\<close>. \<open>new_version_id\<close> is the one optional attribute.
  \<open>put_item\<close> stores an item under its primary key, replacing an item that has the same
  key.
\<close>

record log_item =
  log_s3_object_path :: string
  log_current_timestamp_utc :: string
  log_current_sse_type :: string
  log_current_kms_key_arn :: string
  log_new_sse_type :: string
  log_new_kms_key_arn :: string
  log_action_taken :: string
  log_action_reason :: string
  log_new_version_id :: "string option"

type_synonym log_table = "(ddb_key \<times> log_item) list"

definition put_item :: "ddb_key \<Rightarrow> 'v \<Rightarrow> (ddb_key \<times> 'v) list \<Rightarrow> (ddb_key \<times> 'v) list" where
  "put_item key item tbl = AList.update key item tbl"

section \<open>The object store\<close>

text \<open>
  An object is the list of its versions, newest first; a key that was never written has
  the empty list. A version carries its content and the two response headers the
  remediation reads: \<open>x-amz-server-side-encryption\<close> and
  \<open>x-amz-server-side-encryption-aws-kms-key-id\<close>.
\<close>

record s3_version =
  s3_version_id :: string
  s3_content :: string
  s3_sse :: "string option"
  s3_sse_kms_key_id :: "string option"

section \<open>The world\<close>

text \<open>
  Everything the two Lambda functions read and write. \<open>clock\<close> gives the successive
  readings of \<open>datetime.now(timezone.utc)\<close>, already formatted by \<open>strftime\<close>, and
  \<open>ticks\<close> counts the readings taken. \<open>s3_new_version_id\<close> is the version identifier
  the object store assigns to the next version of an object, given its versions so far.
  Calls to DynamoDB and to the object store are modelled by their effect on this state
  and by the errors this state determines; throttling and transport failures are outside
  the model.
\<close>

record world =
  clock :: "nat \<Rightarrow> string"
  ticks :: nat
  ddb_mapping_table :: mapping_table
  ddb_log_table :: log_table
  s3_versioning :: "string \<Rightarrow> bool"
  s3_objects :: "string \<times> string \<Rightarrow> s3_version list"
  s3_new_version_id :: "s3_version list \<Rightarrow> string"

text \<open>\<open>datetime.strftime(datetime.now(timezone.utc), ...)\<close>: one reading of the clock.\<close>

definition now_utc :: "world \<Rightarrow> string \<times> world" where
  "now_utc w = (clock w (ticks w), w\<lparr>ticks := Suc (ticks w)\<rparr>)"

subsection \<open>Object store calls\<close>

text \<open>
  \<open>s3.get_object(Bucket, Key)\<close> reads the newest version, \<open>s3.get_object(Bucket, Key,
  VersionId)\<close> the version named.
\<close>

definition get_object :: "world \<Rightarrow> string \<Rightarrow> string \<Rightarrow> string option \<Rightarrow> error + s3_version" where
  "get_object w bucket key vid =
     (case vid of
        None \<Rightarrow> (case s3_objects w (bucket, key) of [] \<Rightarrow> Inl NoSuchKey | v # _ \<Rightarrow> Inr v)
      | Some i \<Rightarrow>
          (case find (\<lambda>v. s3_version_id v = i) (s3_objects w (bucket, key)) of
             None \<Rightarrow> Inl NoSuchVersion
           | Some v \<Rightarrow> Inr v))"

text \<open>
  The server-side copy of a version onto its own key with a new encryption. In a bucket
  with versioning the copy is a new version with a new identifier, which the response
  carries; in a bucket without versioning it takes the place of the one version \<open>null\<close>
  and the response carries no version identifier. The content is the source's.
\<close>

definition store_copy ::
  "world \<Rightarrow> string \<Rightarrow> string \<Rightarrow> s3_version \<Rightarrow> string \<Rightarrow> string \<Rightarrow> string option \<times> world" where
  "store_copy w bucket key src sse_kms_key_id server_side_encryption =
     (let old = s3_objects w (bucket, key) in
      if s3_versioning w bucket
      then (Some (s3_new_version_id w old),
            w\<lparr>s3_objects := (s3_objects w)((bucket, key) :=
                 \<lparr>s3_version_id = s3_new_version_id w old, s3_content = s3_content src,
                  s3_sse = Some server_side_encryption,
                  s3_sse_kms_key_id = Some sse_kms_key_id\<rparr> # old)\<rparr>)
      else (None,
            w\<lparr>s3_objects := (s3_objects w)((bucket, key) :=
                 \<lparr>s3_version_id = ''null'', s3_content = s3_content src,
                  s3_sse = Some server_side_encryption,
                  s3_sse_kms_key_id = Some sse_kms_key_id\<rparr>
                 # filter (\<lambda>v. s3_version_id v \<noteq> ''null'') old)\<rparr>))"

text \<open>
  \<open>s3.copy_object\<close> with \<open>CopySource = {Bucket, Key, VersionId}\<close>. It copies in one
  request, which the object store accepts for a source of at most 5 GB; the source says so
  where it calls it. The size of a version is the length of its content.
\<close>

definition copy_object_limit :: nat where
  "copy_object_limit = 5368709120"

definition copy_object ::
  "world \<Rightarrow> string \<Rightarrow> string \<Rightarrow> string \<Rightarrow> string \<Rightarrow> string \<Rightarrow> (error + string option) \<times> world" where
  "copy_object w bucket key source_version_id sse_kms_key_id server_side_encryption =
     (case find (\<lambda>v. s3_version_id v = source_version_id) (s3_objects w (bucket, key)) of
        None \<Rightarrow> (Inl NoSuchVersion, w)
      | Some src \<Rightarrow>
          (if copy_object_limit < length (s3_content src)
           then (Inl InvalidRequest, w)
           else (case store_copy w bucket key src sse_kms_key_id server_side_encryption of
                   (new_id, w') \<Rightarrow> (Inr new_id, w'))))"

text \<open>
  \<open>s3.copy\<close> with \<open>CopySource = {Bucket, Key}\<close>: the newest version is the source. It
  copies in parts when needed and has no such limit.
\<close>

definition copy :: "world \<Rightarrow> string \<Rightarrow> string \<Rightarrow> string \<Rightarrow> string \<Rightarrow> (error + unit) \<times> world" where
  "copy w bucket key sse_kms_key_id server_side_encryption =
     (case s3_objects w (bucket, key) of
        [] \<Rightarrow> (Inl NoSuchKey, w)
      | src # _ \<Rightarrow>
          (Inr (), snd (store_copy w bucket key src sse_kms_key_id server_side_encryption)))"

text \<open>\<open>s3.delete_object(Bucket, Key, VersionId)\<close> removes that version and no other.\<close>

definition delete_object :: "world \<Rightarrow> string \<Rightarrow> string \<Rightarrow> string \<Rightarrow> world" where
  "delete_object w bucket key vid =
     w\<lparr>s3_objects := (s3_objects w)((bucket, key) :=
          filter (\<lambda>v. s3_version_id v \<noteq> vid) (s3_objects w (bucket, key)))\<rparr>"

section \<open>Remediation (fix\_encryption.py)\<close>

text \<open>
  \<open>log_action_into_ddb\<close>: a missing or empty current key is written as the text
  \<open>None\<close>, the timestamp is read from the clock, \<open>new_version_id\<close> is written only when
  it is given, and the item is put into the log table.
\<close>

definition log_action_into_ddb ::
  "string \<Rightarrow> string \<Rightarrow> string option \<Rightarrow> string \<Rightarrow> string \<Rightarrow> string \<Rightarrow> string \<Rightarrow> string option
     \<Rightarrow> world \<Rightarrow> world" where
  "log_action_into_ddb s3_object_path current_sse_type current_kms_key_arn new_sse_type
       new_kms_key_arn action_taken action_reason new_version_id w =
     (case now_utc w of
        (t, w1) \<Rightarrow>
          w1\<lparr>ddb_log_table :=
               put_item (s3_object_path, t)
                 \<lparr>log_s3_object_path = s3_object_path,
                  log_current_timestamp_utc = t,
                  log_current_sse_type = current_sse_type,
                  log_current_kms_key_arn =
                    (if truthy current_kms_key_arn then format_opt current_kms_key_arn
                     else ''None''),
                  log_new_sse_type = new_sse_type,
                  log_new_kms_key_arn = new_kms_key_arn,
                  log_action_taken = action_taken,
                  log_action_reason = action_reason,
                  log_new_version_id =
                    (if truthy new_version_id then new_version_id else None)\<rparr>
                 (ddb_log_table w1)\<rparr>)"

text \<open>
  The f-string for \<open>s3_object_path\<close>: \<open>s3://bucket/key\<close>, followed by
  \<open>?versionId=\<close> and the version when one is given.
\<close>

definition s3_object_path_of :: "string \<Rightarrow> string \<Rightarrow> string option \<Rightarrow> string" where
  "s3_object_path_of bucket_name object_name vid =
     (case vid of
        Some i \<Rightarrow> ''s3://'' @ bucket_name @ ''/'' @ object_name @ ''?versionId='' @ i
      | None \<Rightarrow> ''s3://'' @ bucket_name @ ''/'' @ object_name)"

text \<open>
  The reason logged for an object without a policy; \<open>CHR 0x27\<close> is the apostrophe of
  \<open>object's\<close>.
\<close>

definition no_key_reason :: string where
  "no_key_reason =
     ''No KMS key configured for this object'' @ [CHR 0x27] @ ''s prefix''"

text \<open>
  The encryption type an object should have: dual-layer when the policy asks for it.
\<close>

definition new_sse_type_for :: "bool \<Rightarrow> string" where
  "new_sse_type_for dual = (if dual then ''aws:kms:dsse'' else ''aws:kms'')"

text \<open>
  The \<open>action_reason\<close> of an object with a wrong encryption. The \<open>elif\<close> test is true
  whenever it is reached, since the object has the right type and is not compliant.
\<close>

definition action_reason_for :: "string \<Rightarrow> string option \<Rightarrow> string \<Rightarrow> string \<Rightarrow> string" where
  "action_reason_for current_sse_type current_kms_key_arn new_sse_type new_kms_key_arn =
     (if current_sse_type \<noteq> new_sse_type
      then ''Incorrect SSE type. Was '' @ current_sse_type
           @ '' whereas it should have been '' @ new_sse_type
      else ''Incorrect KMS key. Was '' @ format_opt current_kms_key_arn
           @ '' whereas it should hve been '' @ new_kms_key_arn)"

text \<open>
  \<open>fix_encryption_if_incorrect\<close>. Both \<open>if version_id:\<close> tests take the else branch for
  \<open>None\<close> and for the empty string, which is \<open>vid = None\<close> below. An exception leaves
  the function with the world as it is at that point.
\<close>

definition fix_encryption_if_incorrect ::
  "string \<Rightarrow> string \<Rightarrow> string option \<Rightarrow> world \<Rightarrow> (error + unit) \<times> world" where
  "fix_encryption_if_incorrect bucket_name object_name version_id w =
     (let vid = (if truthy version_id then version_id else None);
          s3_object_path = s3_object_path_of bucket_name object_name vid
      in case get_object w bucket_name object_name vid of
           Inl e \<Rightarrow> (Inl e, w)
         | Inr response \<Rightarrow>
             (case s3_sse response of
                None \<Rightarrow> (Inl (KeyError ''x-amz-server-side-encryption''), w)
              | Some current_sse_type \<Rightarrow>
                  (let current_kms_key_arn = s3_sse_kms_key_id response
                   in case get_kms_key_info_for_s3_prefix (ddb_mapping_table w)
                             bucket_name object_name of
                        None \<Rightarrow>
                          (Inr (),
                           log_action_into_ddb s3_object_path current_sse_type
                             current_kms_key_arn ''None'' ''None'' ''None'' no_key_reason None w)
                      | Some correct_kms_key_info \<Rightarrow>
                          (let new_kms_key_arn = info_kms_key_arn correct_kms_key_info;
                               new_sse_type =
                                 new_sse_type_for
                                   (info_dual_layer_encryption correct_kms_key_info)
                           in if current_sse_type = new_sse_type
                                 \<and> current_kms_key_arn = Some new_kms_key_arn
                              then (Inr (),
                                    log_action_into_ddb s3_object_path current_sse_type
                                      current_kms_key_arn new_sse_type new_kms_key_arn ''None''
                                      ''Already using the correct key'' None w)
                              else
                                (let action_reason =
                                       action_reason_for current_sse_type current_kms_key_arn
                                         new_sse_type new_kms_key_arn
                                 in case vid of
                                      Some i \<Rightarrow>
                                        (case copy_object w bucket_name object_name i
                                                new_kms_key_arn new_sse_type of
                                           (Inl e, w1) \<Rightarrow> (Inl e, w1)
                                         | (Inr None, w1) \<Rightarrow> (Inl (KeyError ''VersionId''), w1)
                                         | (Inr (Some new_version_id), w1) \<Rightarrow>
                                             (let w2 = log_action_into_ddb s3_object_path
                                                         current_sse_type current_kms_key_arn
                                                         new_sse_type new_kms_key_arn
                                                         ''Initiated copy with the right key''
                                                         action_reason (Some new_version_id) w1;
                                                  w3 = delete_object w2 bucket_name object_name i
                                              in (Inr (),
                                                  log_action_into_ddb s3_object_path
                                                    current_sse_type current_kms_key_arn
                                                    ''N/A'' ''N/A''
                                                    ''Deleted old version with incorrect encryption''
                                                    ''N/A'' None w3)))
                                    | None \<Rightarrow>
                                        (case copy w bucket_name object_name new_kms_key_arn
                                                new_sse_type of
                                           (Inl e, w1) \<Rightarrow> (Inl e, w1)
                                         | (Inr u, w1) \<Rightarrow>
                                             (Inr (),
                                              log_action_into_ddb s3_object_path
                                                current_sse_type current_kms_key_arn
                                                new_sse_type new_kms_key_arn
                                                ''Initiated copy with the right key''
                                                action_reason None w1)))))))"

section \<open>The queue handler (s3\_encrypt.py)\<close>

text \<open>
  A message of the batch carries its identifier and its body. The decoded body either has
  no \<open>Records\<close> entry or has the list of object records; a record names the bucket, the
  object key as the notification encodes it, and the version when the bucket has
  versions. \<open>urllib.parse.unquote_plus\<close> is a parameter of the handler.
\<close>

record s3_rec =
  rec_bucket_name :: string
  rec_object_key :: string
  rec_version_id :: "string option"

record sqs_msg =
  messageId :: string
  body_Records :: "s3_rec list option"

record handler_response =
  statusCode :: nat
  batchItemFailures :: "string list option"

text \<open>The inner loop over the records of one message, with its \<open>try\<close> and \<open>except\<close>.\<close>

fun process_records ::
  "(string \<Rightarrow> string) \<Rightarrow> string \<Rightarrow> s3_rec list \<Rightarrow> string list \<Rightarrow> world
     \<Rightarrow> string list \<times> world" where
  "process_records unquote_plus message_id [] batch_item_failures w =
     (batch_item_failures, w)"
| "process_records unquote_plus message_id (rec # recs) batch_item_failures w =
     (case fix_encryption_if_incorrect (rec_bucket_name rec)
             (unquote_plus (rec_object_key rec)) (rec_version_id rec) w of
        (Inr u, w1) \<Rightarrow>
          process_records unquote_plus message_id recs batch_item_failures w1
      | (Inl e, w1) \<Rightarrow>
          process_records unquote_plus message_id recs
            (batch_item_failures @ [message_id]) w1)"

text \<open>The outer loop over the messages of the batch.\<close>

fun process_messages ::
  "(string \<Rightarrow> string) \<Rightarrow> sqs_msg list \<Rightarrow> string list \<Rightarrow> world \<Rightarrow> string list \<times> world" where
  "process_messages unquote_plus [] batch_item_failures w = (batch_item_failures, w)"
| "process_messages unquote_plus (sqs_msg # msgs) batch_item_failures w =
     (case body_Records sqs_msg of
        Some recs \<Rightarrow>
          (case process_records unquote_plus (messageId sqs_msg) recs batch_item_failures w of
             (failures, w1) \<Rightarrow> process_messages unquote_plus msgs failures w1)
      | None \<Rightarrow> process_messages unquote_plus msgs batch_item_failures w)"

definition lambda_handler ::
  "(string \<Rightarrow> string) \<Rightarrow> sqs_msg list \<Rightarrow> world \<Rightarrow> handler_response \<times> world" where
  "lambda_handler unquote_plus event w =
     (case process_messages unquote_plus event [] w of
        (batch_item_failures, w1) \<Rightarrow>
          (if length batch_item_failures = 0
           then \<lparr>statusCode = 200, batchItemFailures = None\<rparr>
           else \<lparr>statusCode = 500, batchItemFailures = Some batch_item_failures\<rparr>,
           w1))"

section \<open>Reconciliation (ddb\_custom\_resource.py)\<close>

text \<open>
  \<open>MappingData\<close> is a dictionary from prefix to the key and the dual-layer flag, the
  flag as the text \<open>true\<close> or \<open>false\<close>. It is the list of its entries in iteration
  order, and a dictionary has each key once, which is \<open>dict_ok\<close>.
\<close>

record mapping_entry =
  md_kms_key_arn :: string
  md_dual_layer_encryption :: string

type_synonym mapping_data = "(string \<times> mapping_entry) list"

definition dict_ok :: "mapping_data \<Rightarrow> bool" where
  "dict_ok mapping_data = distinct (map fst mapping_data)"

text \<open>\<open>if_not_exists(path, value)\<close> of an update expression.\<close>

definition if_not_exists :: "'a option \<Rightarrow> 'a \<Rightarrow> 'a" where
  "if_not_exists attr v = (case attr of None \<Rightarrow> v | Some old \<Rightarrow> old)"

text \<open>
  \<open>table.update_item\<close> with the update expression \<open>SET kms_key_arn = :k,
  dual_layer_encryption = :d, last_update_ts = :t, insert_ts = if_not_exists(insert_ts, :t)\<close>
  and the condition \<open>kms_key_arn <> :k or dual_layer_encryption <> :d\<close>. On a key with
  no item the attributes of the condition are missing, \<open><>\<close> holds, and the item is
  created.
\<close>

definition update_item ::
  "mapping_table \<Rightarrow> ddb_key \<Rightarrow> string \<Rightarrow> bool \<Rightarrow> string \<Rightarrow> error + mapping_table" where
  "update_item tbl key k d t =
     (if map_option kms_key_arn (map_of tbl key) \<noteq> Some k
         \<or> map_option dual_layer_encryption (map_of tbl key) \<noteq> Some d
      then Inr (AList.update key
                  \<lparr>kms_key_arn = k, dual_layer_encryption = d,
                   insert_ts = if_not_exists (map_option insert_ts (map_of tbl key)) t,
                   last_update_ts = t\<rparr> tbl)
      else Inl ConditionalCheckFailedException)"

text \<open>
  \<open>update_ddb_items\<close>: the loop over the prefixes of the mapping data, each taken with
  the entry that \<open>mapping_data[prefix]\<close> reads. The timestamp is read before the call;
  \<open>ConditionalCheckFailedException\<close> is caught and the loop goes on; any other exception
  leaves the loop.
\<close>

fun update_ddb_items :: "string \<Rightarrow> mapping_data \<Rightarrow> world \<Rightarrow> (error + unit) \<times> world" where
  "update_ddb_items bucket_name [] w = (Inr (), w)"
| "update_ddb_items bucket_name (pe # rest) w =
     (case now_utc w of
        (t, w1) \<Rightarrow>
          (case update_item (ddb_mapping_table w1) (bucket_name, fst pe)
                  (md_kms_key_arn (snd pe)) (md_dual_layer_encryption (snd pe) = ''true'') t of
             Inr tbl \<Rightarrow> update_ddb_items bucket_name rest (w1\<lparr>ddb_mapping_table := tbl\<rparr>)
           | Inl e \<Rightarrow>
               (if e = ConditionalCheckFailedException
                then update_ddb_items bucket_name rest w1
                else (Inl e, w1))))"

text \<open>
  \<open>query_table\<close>: the primary keys of the items of one bucket, in ascending order of the
  sort key.
\<close>

definition query_table :: "mapping_table \<Rightarrow> string \<Rightarrow> ddb_key list" where
  "query_table tbl bucket_name =
     sort_key snd (filter (\<lambda>key. fst key = bucket_name) (map fst tbl))"

definition delete_item :: "ddb_key \<Rightarrow> mapping_table \<Rightarrow> mapping_table" where
  "delete_item key tbl = AList.delete key tbl"

text \<open>The loop of \<open>delete_missing_ddb_items\<close> over the items found.\<close>

fun delete_missing :: "mapping_data \<Rightarrow> ddb_key list \<Rightarrow> mapping_table \<Rightarrow> mapping_table" where
  "delete_missing mapping_data [] tbl = tbl"
| "delete_missing mapping_data (item # items) tbl =
     (if snd item \<notin> set (map fst mapping_data)
      then delete_missing mapping_data items (delete_item item tbl)
      else delete_missing mapping_data items tbl)"

definition delete_missing_ddb_items :: "string \<Rightarrow> mapping_data \<Rightarrow> world \<Rightarrow> world" where
  "delete_missing_ddb_items bucket_name mapping_data w =
     w\<lparr>ddb_mapping_table :=
         delete_missing mapping_data (query_table (ddb_mapping_table w) bucket_name)
           (ddb_mapping_table w)\<rparr>"

record update_event =
  PhysicalResourceId :: string
  TableName :: string
  BucketName :: string
  MappingData :: mapping_data

definition on_update :: "update_event \<Rightarrow> world \<Rightarrow> (error + string) \<times> world" where
  "on_update event w =
     (case update_ddb_items (BucketName event) (MappingData event) w of
        (Inl e, w1) \<Rightarrow> (Inl e, w1)
      | (Inr u, w1) \<Rightarrow>
          (Inr (PhysicalResourceId event),
           delete_missing_ddb_items (BucketName event) (MappingData event) w1))"

text \<open>
  What the specification asks of Reconcile for one desired entry: a prefix with no record
  is inserted with both timestamps at the time of the write, a record whose key or flag
  differs is given the desired key and flag and a new \<open>last_update_ts\<close>, keeping its
  \<open>insert_ts\<close>, and a record that agrees is left as it is.
\<close>

definition spec_reconciled_item :: "mapping_item option \<Rightarrow> mapping_entry \<Rightarrow> string \<Rightarrow> mapping_item" where
  "spec_reconciled_item existing desired t =
     (case existing of
        None \<Rightarrow> \<lparr>kms_key_arn = md_kms_key_arn desired,
                 dual_layer_encryption = (md_dual_layer_encryption desired = ''true''),
                 insert_ts = t, last_update_ts = t\<rparr>
      | Some it \<Rightarrow>
          if kms_key_arn it = md_kms_key_arn desired
             \<and> dual_layer_encryption it = (md_dual_layer_encryption desired = ''true'')
          then it
          else \<lparr>kms_key_arn = md_kms_key_arn desired,
                dual_layer_encryption = (md_dual_layer_encryption desired = ''true''),
                insert_ts = insert_ts it, last_update_ts = t\<rparr>)"

section \<open>Failed messages of a batch\<close>

text \<open>
  The specification's reading of a batch. The outcomes of the records of one message are
  those of \<open>fix_encryption_if_incorrect\<close> on each record in turn. A message has failed
  when the remediation of one of its records raised, and the failed messages of a batch
  are listed by their identifiers in the order of the batch.
\<close>

fun record_outcomes ::
  "(string \<Rightarrow> string) \<Rightarrow> s3_rec list \<Rightarrow> world \<Rightarrow> (error + unit) list \<times> world" where
  "record_outcomes unquote_plus [] w = ([], w)"
| "record_outcomes unquote_plus (rec # recs) w =
     (case fix_encryption_if_incorrect (rec_bucket_name rec)
             (unquote_plus (rec_object_key rec)) (rec_version_id rec) w of
        (r, w1) \<Rightarrow>
          (case record_outcomes unquote_plus recs w1 of (rs, w2) \<Rightarrow> (r # rs, w2)))"

definition message_failed :: "(string \<Rightarrow> string) \<Rightarrow> sqs_msg \<Rightarrow> world \<Rightarrow> bool" where
  "message_failed unquote_plus m w =
     (case body_Records m of
        None \<Rightarrow> False
      | Some recs \<Rightarrow> list_ex isl (fst (record_outcomes unquote_plus recs w)))"

definition world_after_message :: "(string \<Rightarrow> string) \<Rightarrow> sqs_msg \<Rightarrow> world \<Rightarrow> world" where
  "world_after_message unquote_plus m w =
     (case body_Records m of
        None \<Rightarrow> w
      | Some recs \<Rightarrow> snd (record_outcomes unquote_plus recs w))"

fun failed_message_ids :: "(string \<Rightarrow> string) \<Rightarrow> sqs_msg list \<Rightarrow> world \<Rightarrow> string list" where
  "failed_message_ids unquote_plus [] w = []"
| "failed_message_ids unquote_plus (m # ms) w =
     (if message_failed unquote_plus m w then [messageId m] else [])
     @ failed_message_ids unquote_plus ms (world_after_message unquote_plus m w)"

section \<open>Example data\<close>

definition demo_item :: "string \<Rightarrow> bool \<Rightarrow> mapping_item" where
  "demo_item k d =
     \<lparr>kms_key_arn = k, dual_layer_encryption = d, insert_ts = ''t0'', last_update_ts = ''t0''\<rparr>"

definition demo_table :: mapping_table where
  "demo_table =
     [((''b'', ''a/''), demo_item ''k1'' False),
      ((''b'', ''a/b/''), demo_item ''k2'' False),
      ((''b'', ''a/b/c''), demo_item ''k3'' False)]"

definition demo_clock :: "nat \<Rightarrow> string" where
  "demo_clock n = ''T'' @ replicate n (CHR ''i'')"

definition reconcile_world :: world where
  "reconcile_world =
     \<lparr>clock = demo_clock, ticks = 0,
      ddb_mapping_table =
        [((''b'', ''p1''), demo_item ''k1'' False),
         ((''b'', ''p2''), demo_item ''k2'' False),
         ((''other'', ''p2''), demo_item ''k7'' True)],
      ddb_log_table = [],
      s3_versioning = (\<lambda>b. False),
      s3_objects = (\<lambda>k. []),
      s3_new_version_id = (\<lambda>vs. ''v'')\<rparr>"

definition reconcile_event :: update_event where
  "reconcile_event =
     \<lparr>PhysicalResourceId = ''CRToManageMappingForBucketb'', TableName = ''mapping'',
      BucketName = ''b'',
      MappingData =
        [(''p1'', \<lparr>md_kms_key_arn = ''k1'', md_dual_layer_encryption = ''false''\<rparr>),
         (''p3'', \<lparr>md_kms_key_arn = ''k3'', md_dual_layer_encryption = ''true''\<rparr>)]\<rparr>"

definition rekey_event :: update_event where
  "rekey_event =
     \<lparr>PhysicalResourceId = ''CRToManageMappingForBucketb'', TableName = ''mapping'',
      BucketName = ''b'',
      MappingData =
        [(''p2'', \<lparr>md_kms_key_arn = ''k2'', md_dual_layer_encryption = ''false''\<rparr>),
         (''p1'', \<lparr>md_kms_key_arn = ''k9'', md_dual_layer_encryption = ''false''\<rparr>)]\<rparr>"

definition old_log_item :: log_item where
  "old_log_item =
     \<lparr>log_s3_object_path = ''s3://b/a/x'', log_current_timestamp_utc = ''Told'',
      log_current_sse_type = ''AES256'', log_current_kms_key_arn = ''None'',
      log_new_sse_type = ''aws:kms'', log_new_kms_key_arn = ''k1'',
      log_action_taken = ''Initiated copy with the right key'',
      log_action_reason = ''Incorrect SSE type. Was AES256 whereas it should have been aws:kms'',
      log_new_version_id = None\<rparr>"

definition demo_world :: world where
  "demo_world =
     \<lparr>clock = demo_clock, ticks = 0,
      ddb_mapping_table = demo_table @ [((''vb'', ''a/''), demo_item ''k1'' False)],
      ddb_log_table = [((''s3://b/a/x'', ''Told''), old_log_item)],
      s3_versioning = (\<lambda>bucket. bucket = ''vb''),
      s3_objects = (\<lambda>key.
        if key = (''b'', ''a/x'')
        then [\<lparr>s3_version_id = ''null'', s3_content = ''data1'',
               s3_sse = Some ''aws:kms'', s3_sse_kms_key_id = Some ''k1''\<rparr>]
        else if key = (''b'', ''z/y'')
        then [\<lparr>s3_version_id = ''null'', s3_content = ''data2'',
               s3_sse = Some ''AES256'', s3_sse_kms_key_id = None\<rparr>]
        else if key = (''vb'', ''a/k'')
        then [\<lparr>s3_version_id = ''v1'', s3_content = ''data3'',
               s3_sse = Some ''aws:kms'', s3_sse_kms_key_id = Some ''k0''\<rparr>]
        else []),
      s3_new_version_id = (\<lambda>versions. ''v2'')\<rparr>"

definition versioned_world :: world where
  "versioned_world = demo_world\<lparr>ddb_log_table := []\<rparr>"

definition demo_batch :: "sqs_msg list" where
  "demo_batch =
     [\<lparr>messageId = ''m1'',
       body_Records = Some [\<lparr>rec_bucket_name = ''b'', rec_object_key = ''a/x'',
                              rec_version_id = None\<rparr>]\<rparr>,
      \<lparr>messageId = ''m2'',
       body_Records = Some [\<lparr>rec_bucket_name = ''b'', rec_object_key = ''a/gone'',
                              rec_version_id = None\<rparr>]\<rparr>,
      \<lparr>messageId = ''m3'',
       body_Records = Some [\<lparr>rec_bucket_name = ''b'', rec_object_key = ''z/y'',
                              rec_version_id = None\<rparr>]\<rparr>]"

definition test_event_msg :: sqs_msg where
  "test_event_msg = \<lparr>messageId = ''m0'', body_Records = None\<rparr>"

text \<open>
  A bucket with the prefix \<open>a/\<close> and five thousand prefixes \<open>a/y0000\<close> to \<open>a/y4999\<close>,
  each with a key of its own kind.
\<close>

definition digit :: "nat \<Rightarrow> char" where
  "digit d = ''0123456789'' ! d"

definition numbered_prefix :: "nat \<Rightarrow> string" where
  "numbered_prefix n =
     ''a/y'' @ [digit (n div 1000 mod 10), digit (n div 100 mod 10),
                digit (n div 10 mod 10), digit (n mod 10)]"

definition crowded_item :: mapping_item where
  "crowded_item =
     \<lparr>kms_key_arn =
        ''arn:aws:kms:us-east-1:111122223333:key/1234abcd-12ab-34cd-56ef-1234567890ab'',
      dual_layer_encryption = False,
      insert_ts = ''2024-01-01 00:00:00:000000+0000'',
      last_update_ts = ''2024-01-01 00:00:00:000000+0000''\<rparr>"

definition crowded_table :: mapping_table where
  "crowded_table =
     ((''b'', ''a/''), crowded_item)
     # map (\<lambda>n. ((''b'', numbered_prefix n), crowded_item)) [0..<5000]"


definition repair_world :: world where
  "repair_world =
     demo_world\<lparr>s3_objects := (s3_objects demo_world)((''b'', ''a/b/f'') :=
       [\<lparr>s3_version_id = ''null'', s3_content = ''data4'',
         s3_sse = Some ''AES256'', s3_sse_kms_key_id = None\<rparr>])\<rparr>"

section \<open>Longest-prefix resolution\<close>

lemma prefix_imp_le: "prefix p (k::string) \<Longrightarrow> p \<le> k"
proof (induction p arbitrary: k)
  case Nil
  then show ?case by simp
next
  case (Cons a p)
  then obtain k' where "k = a # k'" "prefix p k'" by (cases k) auto
  with Cons.IH show ?case by simp
qed

lemma strict_prefix_imp_less: "strict_prefix p (k::string) \<Longrightarrow> p < k"
  by (metis prefix_imp_le strict_prefix_def order_le_less)

lemma prefix_le_length:
  assumes "prefix a (k::string)" "prefix b k" "a \<le> b"
  shows "length a \<le> length b"
proof (rule ccontr)
  assume "\<not> length a \<le> length b"
  then have "length b < length a" by simp
  with assms(1,2) have "strict_prefix b a"
    by (metis prefix_same_cases prefix_length_le strict_prefix_def not_less)
  then have "b < a" by (rule strict_prefix_imp_less)
  with assms(3) show False by simp
qed

lemma best_match_find:
  "best_match k xs =
     map_option (\<lambda>it. \<lparr>info_kms_key_arn = kms_key_arn (snd it),
                        info_dual_layer_encryption = dual_layer_encryption (snd it)\<rparr>)
       (find (\<lambda>it. prefix (snd (fst it)) k) xs)"
  by (induction xs) (auto simp: startswith_def)

lemma best_match_None:
  "best_match k xs = None \<longleftrightarrow> (\<forall>it \<in> set xs. \<not> prefix (snd (fst it)) k)"
  by (induction xs) (auto simp: startswith_def)

lemma best_match_Some:
  assumes "best_match k xs = Some info" "sorted (rev (map (\<lambda>it. snd (fst it)) xs))"
  shows "\<exists>it \<in> set xs. prefix (snd (fst it)) k
           \<and> info = \<lparr>info_kms_key_arn = kms_key_arn (snd it),
                      info_dual_layer_encryption = dual_layer_encryption (snd it)\<rparr>
           \<and> (\<forall>it' \<in> set xs. prefix (snd (fst it')) k
                  \<longrightarrow> length (snd (fst it')) \<le> length (snd (fst it)))"
  using assms
proof (induction xs)
  case Nil
  then show ?case by simp
next
  case (Cons x xs)
  show ?case
  proof (cases "prefix (snd (fst x)) k")
    case True
    have le: "\<forall>y \<in> set xs. snd (fst y) \<le> snd (fst x)"
      using Cons.prems(2) by (auto simp: sorted_append)
    have "\<forall>it' \<in> set (x # xs). prefix (snd (fst it')) k
            \<longrightarrow> length (snd (fst it')) \<le> length (snd (fst x))"
      using le True by (auto intro: prefix_le_length)
    moreover have "info = \<lparr>info_kms_key_arn = kms_key_arn (snd x),
                           info_dual_layer_encryption = dual_layer_encryption (snd x)\<rparr>"
      using Cons.prems(1) True by (simp add: startswith_def)
    ultimately show ?thesis using True by auto
  next
    case False
    then have "best_match k xs = Some info"
      using Cons.prems(1) by (simp add: startswith_def)
    moreover have "sorted (rev (map (\<lambda>it. snd (fst it)) xs))"
      using Cons.prems(2) by (simp add: sorted_append)
    ultimately obtain it where "it \<in> set xs" "prefix (snd (fst it)) k"
      "info = \<lparr>info_kms_key_arn = kms_key_arn (snd it),
               info_dual_layer_encryption = dual_layer_encryption (snd it)\<rparr>"
      "\<forall>it' \<in> set xs. prefix (snd (fst it')) k
          \<longrightarrow> length (snd (fst it')) \<le> length (snd (fst it))"
      using Cons.IH by blast
    with False show ?thesis by auto
  qed
qed

lemma set_candidates_desc:
  "set (candidates_desc tbl b k) = {it \<in> set tbl. fst (fst it) = b \<and> snd (fst it) \<le> k}"
  by (auto simp: candidates_desc_def)

lemma sorted_candidates_desc:
  "sorted (rev (map (\<lambda>it. snd (fst it)) (candidates_desc tbl b k)))"
  by (simp add: candidates_desc_def rev_map)

subsection \<open>The page\<close>

lemma first_page_set: "set (first_page room xs) \<subseteq> set xs"
  by (induction xs arbitrary: room) auto

lemma first_page_append_over:
  "room < sum_list (map mapping_item_size ys) \<Longrightarrow>
     first_page room (ys @ zs) = first_page room ys"
  by (induction ys arbitrary: room) auto

lemma first_page_all:
  "sum_list (map mapping_item_size xs) \<le> room \<Longrightarrow> first_page room xs = xs"
  by (induction xs arbitrary: room) auto

lemma first_page_take: "\<exists>n. first_page room xs = take n xs"
proof (induction xs arbitrary: room)
  case Nil
  then show ?case by simp
next
  case (Cons x xs)
  show ?case
  proof (cases "mapping_item_size x \<le> room")
    case True
    from Cons.IH[of "room - mapping_item_size x"] obtain n
      where "first_page (room - mapping_item_size x) xs = take n xs" by blast
    with True have "first_page room (x # xs) = take (Suc n) (x # xs)" by simp
    then show ?thesis by blast
  next
    case False
    then have "first_page room (x # xs) = take 0 (x # xs)" by simp
    then show ?thesis by blast
  qed
qed

lemma desc_split:
  "sorted (rev (map f xs)) \<Longrightarrow>
     xs = filter (\<lambda>y. c < f y) xs @ filter (\<lambda>y. \<not> c < f y) xs"
proof (induction xs)
  case Nil
  then show ?case by simp
next
  case (Cons x xs)
  from Cons.prems have s: "sorted (rev (map f xs))" and le: "\<forall>y \<in> set xs. f y \<le> f x"
    by (auto simp: sorted_append)
  show ?case
  proof (cases "c < f x")
    case True
    with Cons.IH[OF s] show ?thesis by simp
  next
    case False
    with le have "\<forall>y \<in> set xs. \<not> c < f y" by fastforce
    then have "filter (\<lambda>y. c < f y) xs = []" "filter (\<lambda>y. \<not> c < f y) xs = xs"
      by (simp_all add: filter_empty_conv filter_id_conv)
    with False show ?thesis by simp
  qed
qed

lemma sum_list_insort_key:
  "sum_list (map g (insort_key f x xs)) = (g x :: nat) + sum_list (map g xs)"
  by (induction xs) (simp_all add: ac_simps)

lemma sum_list_sort_key:
  "sum_list (map g (sort_key f xs)) = (sum_list (map g xs) :: nat)"
  by (induction xs) (simp_all add: sum_list_insort_key)

lemma sum_candidates_above:
  "(sum_list (map g (filter P (candidates_desc tbl b k))) :: nat)
     = sum_list (map g (filter P (filter (\<lambda>it. fst (fst it) = b \<and> snd (fst it) \<le> k) tbl)))"
proof -
  let ?q = "filter (\<lambda>it. fst (fst it) = b \<and> snd (fst it) \<le> k) tbl"
  have "filter P (candidates_desc tbl b k) = rev (sort_key (\<lambda>it. snd (fst it)) (filter P ?q))"
    by (simp add: candidates_desc_def rev_filter[symmetric] filter_sort del: filter_filter)
  then show ?thesis
    by (simp add: rev_map[symmetric] sum_list_sort_key del: filter_filter)
qed

lemma best_match_take:
  "best_match k (take n xs) = Some info \<Longrightarrow> best_match k xs = Some info"
proof (induction xs arbitrary: n)
  case Nil
  then show ?case by simp
next
  case (Cons x xs)
  then show ?case by (cases n) (auto split: if_splits)
qed

lemma best_match_page:
  "best_match k (first_page room xs) = Some info \<Longrightarrow> best_match k xs = Some info"
  using first_page_take[of room xs] by (auto dest: best_match_take)

text \<open>Without a stored prefix that the object name starts with, the answer is nothing.\<close>

lemma resolver_no_match:
  assumes "\<forall>p it. ((b, p), it) \<in> set tbl \<longrightarrow> \<not> prefix p k"
  shows "get_kms_key_info_for_s3_prefix tbl b k = None"
proof -
  have "set (query_prefix_le tbl b k) \<subseteq> set tbl"
    using first_page_set[of ddb_page_limit "candidates_desc tbl b k"]
    by (auto simp: query_prefix_le_def set_candidates_desc)
  moreover have "\<forall>it \<in> set (query_prefix_le tbl b k). fst (fst it) = b"
    using first_page_set[of ddb_page_limit "candidates_desc tbl b k"]
    by (auto simp: query_prefix_le_def set_candidates_desc)
  ultimately have "\<forall>it \<in> set (query_prefix_le tbl b k). \<not> prefix (snd (fst it)) k"
    using assms by (metis prod.collapse subsetD)
  then show ?thesis
    by (simp add: get_kms_key_info_for_s3_prefix_def best_match_None)
qed

text \<open>An answer of the resolver is the record of the longest stored prefix.\<close>

lemma resolver_Some:
  assumes ok: "table_ok tbl"
    and res: "get_kms_key_info_for_s3_prefix tbl b k = Some info"
  shows "\<exists>p it. map_of tbl (b, p) = Some it \<and> prefix p k
           \<and> info = \<lparr>info_kms_key_arn = kms_key_arn it,
                      info_dual_layer_encryption = dual_layer_encryption it\<rparr>
           \<and> (\<forall>q it'. map_of tbl (b, q) = Some it' \<and> prefix q k \<longrightarrow> length q \<le> length p)"
proof -
  from res have "best_match k (candidates_desc tbl b k) = Some info"
    by (auto simp: get_kms_key_info_for_s3_prefix_def query_prefix_le_def dest: best_match_page)
  then obtain x where x: "x \<in> set (candidates_desc tbl b k)" "prefix (snd (fst x)) k"
     "info = \<lparr>info_kms_key_arn = kms_key_arn (snd x),
              info_dual_layer_encryption = dual_layer_encryption (snd x)\<rparr>"
     "\<forall>it' \<in> set (candidates_desc tbl b k). prefix (snd (fst it')) k
         \<longrightarrow> length (snd (fst it')) \<le> length (snd (fst x))"
    using best_match_Some[where k=k and xs="candidates_desc tbl b k" and info=info]
      sorted_candidates_desc[of tbl b k]
    by auto
  from x(1) have "x \<in> set tbl" "fst (fst x) = b" by (auto simp: set_candidates_desc)
  then have "((b, snd (fst x)), snd x) \<in> set tbl" by (metis prod.collapse)
  with ok have m: "map_of tbl (b, snd (fst x)) = Some (snd x)"
    by (simp add: table_ok_def)
  have "\<forall>q it'. map_of tbl (b, q) = Some it' \<and> prefix q k
          \<longrightarrow> length q \<le> length (snd (fst x))"
  proof (intro allI impI)
    fix q it'
    assume a: "map_of tbl (b, q) = Some it' \<and> prefix q k"
    then have "((b, q), it') \<in> set tbl" by (auto dest: map_of_SomeD)
    with a have "((b, q), it') \<in> set (candidates_desc tbl b k)"
      by (auto simp: set_candidates_desc dest: prefix_imp_le)
    with x(4) a show "length q \<le> length (snd (fst x))" by force
  qed
  with m x(2,3) show ?thesis by blast
qed

text \<open>
  When the candidates fit into one page, the resolver answers with the record of the
  longest stored prefix that the object name starts with, and with nothing only when
  there is none.
\<close>

lemma resolver_one_page:
  assumes ok: "table_ok tbl"
    and fit: "sum_list (map mapping_item_size (candidates_desc tbl b k)) \<le> ddb_page_limit"
  shows "case get_kms_key_info_for_s3_prefix tbl b k of
            None \<Rightarrow> \<forall>p it. map_of tbl (b, p) = Some it \<longrightarrow> \<not> prefix p k
          | Some info \<Rightarrow>
              \<exists>p it. map_of tbl (b, p) = Some it \<and> prefix p k
                \<and> info = \<lparr>info_kms_key_arn = kms_key_arn it,
                           info_dual_layer_encryption = dual_layer_encryption it\<rparr>
                \<and> (\<forall>q it'. map_of tbl (b, q) = Some it' \<and> prefix q k
                       \<longrightarrow> length q \<le> length p)"
proof (cases "get_kms_key_info_for_s3_prefix tbl b k")
  case None
  from fit have "query_prefix_le tbl b k = candidates_desc tbl b k"
    by (simp add: query_prefix_le_def first_page_all)
  with None have "\<forall>it \<in> set (candidates_desc tbl b k). \<not> prefix (snd (fst it)) k"
    by (simp add: get_kms_key_info_for_s3_prefix_def best_match_None)
  then have "\<forall>p it. map_of tbl (b, p) = Some it \<longrightarrow> \<not> prefix p k"
    by (auto simp: set_candidates_desc dest!: map_of_SomeD dest: prefix_imp_le)
  with None show ?thesis by simp
next
  case (Some info)
  with resolver_Some[OF ok Some] show ?thesis by simp
qed

text \<open>The example of the specification: prefixes \<open>a/\<close>, \<open>a/b/\<close> and \<open>a/b/c\<close>.\<close>

lemma resolver_example:
  "get_kms_key_info_for_s3_prefix demo_table ''b'' ''a/b/cde''
       = Some \<lparr>info_kms_key_arn = ''k3'', info_dual_layer_encryption = False\<rparr>
   \<and> get_kms_key_info_for_s3_prefix demo_table ''b'' ''a/x''
       = Some \<lparr>info_kms_key_arn = ''k1'', info_dual_layer_encryption = False\<rparr>
   \<and> get_kms_key_info_for_s3_prefix demo_table ''b'' ''z/'' = None"
  by (simp add: get_kms_key_info_for_s3_prefix_def query_prefix_le_def candidates_desc_def
        ddb_page_limit_def mapping_item_size_def demo_table_def demo_item_def startswith_def)

subsection \<open>A bucket with more than one page of candidates\<close>

lemma digit_inj: "a < 10 \<Longrightarrow> b < 10 \<Longrightarrow> digit a = digit b \<Longrightarrow> a = b"
  unfolding digit_def by (subst (asm) nth_eq_iff_index_eq) simp_all

lemma step10: "(x::nat) div 10 = y div 10 \<Longrightarrow> x mod 10 = y mod 10 \<Longrightarrow> x = y"
  by (metis div_mult_mod_eq)

lemma numbered_inj: "n < 10000 \<Longrightarrow> m < 10000 \<Longrightarrow> numbered_prefix n = numbered_prefix m \<Longrightarrow> n = m"
proof -
  assume n: "n < 10000" and m: "m < 10000" and e: "numbered_prefix n = numbered_prefix m"
  from e have e3: "n div 1000 mod 10 = m div 1000 mod 10"
    and e2: "n div 100 mod 10 = m div 100 mod 10"
    and e1: "n div 10 mod 10 = m div 10 mod 10" and e0: "n mod 10 = m mod 10"
    by (auto simp: numbered_prefix_def intro: digit_inj)
  have c: "x div 1000 = x div 100 div 10" "x div 100 = x div 10 div 10" for x :: nat
    by (simp_all add: div_mult2_eq[symmetric])
  from n m have "n div 1000 < 10" "m div 1000 < 10" by simp_all
  with e3 have "n div 1000 = m div 1000" by simp
  then have "n div 100 div 10 = m div 100 div 10" by (simp only: c)
  with e2 have "n div 100 = m div 100" by (blast intro: step10)
  then have "n div 10 div 10 = m div 10 div 10" by (simp only: c)
  with e1 have "n div 10 = m div 10" by (blast intro: step10)
  with e0 show "n = m" by (blast intro: step10)
qed


lemma numbered_item_size: "mapping_item_size ((''b'', numbered_prefix n), crowded_item) = 218"
  by (simp add: mapping_item_size_def numbered_prefix_def crowded_item_def)

lemma numbered_facts:
  "numbered_prefix n \<le> ''a/z''" "''a/'' < numbered_prefix n"
  "\<not> prefix (numbered_prefix n) ''a/z''" "numbered_prefix n \<noteq> ''a/''"
  by (simp_all add: numbered_prefix_def)

lemma crowded_table_ok: "table_ok crowded_table"
proof -
  have "inj_on (\<lambda>n. (''b'', numbered_prefix n)) (set [0..<5000])"
  proof (rule inj_onI)
    fix x y
    assume "x \<in> set [0..<5000]" "y \<in> set [0..<5000]"
      and "(''b'', numbered_prefix x) = (''b'', numbered_prefix y)"
    then have "x < 10000" "y < 10000" "numbered_prefix x = numbered_prefix y" by simp_all
    then show "x = y" by (rule numbered_inj)
  qed
  then have "distinct (map (\<lambda>n. (''b'', numbered_prefix n)) [0..<5000])"
    by (simp add: distinct_map)
  then show ?thesis
    by (auto simp: table_ok_def crowded_table_def comp_def numbered_prefix_def)
qed

lemma crowded_candidates:
  "filter (\<lambda>it. fst (fst it) = ''b'' \<and> snd (fst it) \<le> ''a/z'') crowded_table = crowded_table"
  by (auto simp: crowded_table_def filter_id_conv numbered_facts)

lemma crowded_above:
  "filter (\<lambda>y. ''a/'' < snd (fst y)) crowded_table
     = map (\<lambda>n. ((''b'', numbered_prefix n), crowded_item)) [0..<5000]"
  by (auto simp: crowded_table_def filter_id_conv numbered_facts)

lemma crowded_sum:
  "sum_list (map mapping_item_size
      (filter (\<lambda>y. ''a/'' < snd (fst y)) (candidates_desc crowded_table ''b'' ''a/z'')))
     = 1090000"
  by (simp add: sum_candidates_above crowded_candidates crowded_above comp_def numbered_item_size sum_list_triv
        del: filter_filter)

text \<open>
  Claim C1 asks for the record of the longest stored prefix for every bucket and object
  name. The resolver reads one page of the query. In the bucket of \<open>crowded_table\<close> the
  five thousand items \<open>a/y0000\<close> to \<open>a/y4999\<close> come before the item \<open>a/\<close> in descending
  order and take more than one page, so for the object name \<open>a/z\<close> the resolver answers
  with nothing, although the prefix \<open>a/\<close> is stored and \<open>a/z\<close> starts with it.
\<close>

theorem resolver_first_page_only:
  "table_ok crowded_table
   \<and> map_of crowded_table (''b'', ''a/'') = Some crowded_item
   \<and> startswith ''a/z'' ''a/''
   \<and> get_kms_key_info_for_s3_prefix crowded_table ''b'' ''a/z'' = None"
proof -
  let ?all = "candidates_desc crowded_table ''b'' ''a/z''"
  let ?ys = "filter (\<lambda>y. ''a/'' < snd (fst y)) ?all"
  let ?zs = "filter (\<lambda>y. \<not> ''a/'' < snd (fst y)) ?all"
  have "sorted (rev (map (\<lambda>it. snd (fst it)) ?all))"
    by (simp add: candidates_desc_def rev_map)
  from desc_split[OF this, of "''a/''"] have split: "?all = ?ys @ ?zs" .
  have over: "ddb_page_limit < sum_list (map mapping_item_size ?ys)"
    by (simp add: crowded_sum ddb_page_limit_def)
  have "query_prefix_le crowded_table ''b'' ''a/z'' = first_page ddb_page_limit (?ys @ ?zs)"
    unfolding query_prefix_le_def using split by simp
  also have "\<dots> = first_page ddb_page_limit ?ys"
    using over by (rule first_page_append_over)
  finally have page: "query_prefix_le crowded_table ''b'' ''a/z'' = first_page ddb_page_limit ?ys" .
  have "set ?all \<subseteq> set crowded_table"
    by (auto simp: candidates_desc_def)
  then have "set ?ys \<subseteq> {y \<in> set crowded_table. ''a/'' < snd (fst y)}"
    by auto
  then have "set ?ys \<subseteq> set (map (\<lambda>n. ((''b'', numbered_prefix n), crowded_item)) [0..<5000])"
    by (auto simp: crowded_table_def)
  with first_page_set[of ddb_page_limit ?ys]
  have "\<forall>it \<in> set (query_prefix_le crowded_table ''b'' ''a/z''). \<not> prefix (snd (fst it)) ''a/z''"
    unfolding page by (auto simp: numbered_facts)
  then have "get_kms_key_info_for_s3_prefix crowded_table ''b'' ''a/z'' = None"
    by (simp add: get_kms_key_info_for_s3_prefix_def best_match_None)
  moreover have "map_of crowded_table (''b'', ''a/'') = Some crowded_item"
    by (simp add: crowded_table_def)
  moreover have "startswith ''a/z'' ''a/''" by (simp add: startswith_def)
  ultimately show ?thesis using crowded_table_ok by blast
qed

section \<open>Reconciliation of the mapping table\<close>

lemma update_item_Inr:
  "update_item tbl key k d t = Inr tbl' \<Longrightarrow>
     map_of tbl' = (map_of tbl)(key \<mapsto>
        \<lparr>kms_key_arn = k, dual_layer_encryption = d,
         insert_ts = if_not_exists (map_option insert_ts (map_of tbl key)) t,
         last_update_ts = t\<rparr>)
     \<and> (table_ok tbl \<longrightarrow> table_ok tbl')
     \<and> (map_option kms_key_arn (map_of tbl key) \<noteq> Some k
         \<or> map_option dual_layer_encryption (map_of tbl key) \<noteq> Some d)"
  by (auto simp: update_item_def update_conv' table_ok_def distinct_update split: if_splits)

lemma update_item_Inl:
  "update_item tbl key k d t = Inl e \<Longrightarrow>
     e = ConditionalCheckFailedException
     \<and> (\<exists>it. map_of tbl key = Some it \<and> kms_key_arn it = k \<and> dual_layer_encryption it = d)"
  by (auto simp: update_item_def split: if_splits)

text \<open>One step of the loop, as a map.\<close>

lemma update_item_step:
  "map_of (case update_item tbl (b, p) (md_kms_key_arn e) (md_dual_layer_encryption e = ''true'') t of
             Inr tbl' \<Rightarrow> tbl' | Inl x \<Rightarrow> tbl)
     = (map_of tbl)((b, p) \<mapsto> spec_reconciled_item (map_of tbl (b, p)) e t)"
proof (cases "update_item tbl (b, p) (md_kms_key_arn e) (md_dual_layer_encryption e = ''true'') t")
  case (Inl x)
  from update_item_Inl[OF Inl] obtain it where "map_of tbl (b, p) = Some it"
    "kms_key_arn it = md_kms_key_arn e" "dual_layer_encryption it = (md_dual_layer_encryption e = ''true'')"
    by blast
  with Inl show ?thesis by (auto simp: spec_reconciled_item_def)
next
  case (Inr tbl')
  from update_item_Inr[OF Inr] show ?thesis using Inr
    by (cases "map_of tbl (b, p)") (auto simp: spec_reconciled_item_def if_not_exists_def)
qed

lemma update_ddb_items_shape:
  "\<exists>tbl'. update_ddb_items b md w
       = (Inr (), w\<lparr>ticks := ticks w + length md, ddb_mapping_table := tbl'\<rparr>)
     \<and> (table_ok (ddb_mapping_table w) \<longrightarrow> table_ok tbl')"
proof (induction md arbitrary: w)
  case Nil
  show ?case by (rule exI[of _ "ddb_mapping_table w"]) simp
next
  case (Cons pe rest)
  let ?w1 = "w\<lparr>ticks := Suc (ticks w)\<rparr>"
  let ?u = "update_item (ddb_mapping_table w) (b, fst pe)
              (md_kms_key_arn (snd pe)) (md_dual_layer_encryption (snd pe) = ''true'') (clock w (ticks w))"
  show ?case
  proof (cases ?u)
    case (Inl e)
    then have e: "e = ConditionalCheckFailedException" by (auto dest: update_item_Inl)
    from Cons.IH[of ?w1] obtain tbl' where
      "update_ddb_items b rest ?w1 = (Inr (), ?w1\<lparr>ticks := ticks ?w1 + length rest, ddb_mapping_table := tbl'\<rparr>)"
      "table_ok (ddb_mapping_table ?w1) \<longrightarrow> table_ok tbl'" by blast
    with Inl e show ?thesis by (auto simp: now_utc_def)
  next
    case (Inr tbl1)
    let ?w2 = "?w1\<lparr>ddb_mapping_table := tbl1\<rparr>"
    from Cons.IH[of ?w2] obtain tbl' where
      "update_ddb_items b rest ?w2 = (Inr (), ?w2\<lparr>ticks := ticks ?w2 + length rest, ddb_mapping_table := tbl'\<rparr>)"
      "table_ok (ddb_mapping_table ?w2) \<longrightarrow> table_ok tbl'" by blast
    with Inr update_item_Inr[OF Inr] show ?thesis by (auto simp: now_utc_def)
  qed
qed

lemma update_ddb_items_Cons_table:
  "map_of (ddb_mapping_table (snd (update_ddb_items b (pe # rest) w)))
     = map_of (ddb_mapping_table (snd (update_ddb_items b rest
          (w\<lparr>ticks := Suc (ticks w),
             ddb_mapping_table :=
               (case update_item (ddb_mapping_table w) (b, fst pe) (md_kms_key_arn (snd pe))
                       (md_dual_layer_encryption (snd pe) = ''true'') (clock w (ticks w)) of
                  Inr tbl' \<Rightarrow> tbl' | Inl x \<Rightarrow> ddb_mapping_table w)\<rparr>))))"
  by (auto simp: now_utc_def split: sum.splits dest: update_item_Inl)

lemma update_ddb_items_frame:
  "key \<notin> (\<lambda>p. (b, p)) ` fst ` set md \<Longrightarrow>
     map_of (ddb_mapping_table (snd (update_ddb_items b md w))) key
       = map_of (ddb_mapping_table w) key"
proof (induction md arbitrary: w)
  case Nil
  then show ?case by simp
next
  case (Cons pe rest)
  have k: "key \<noteq> (b, fst pe)" "key \<notin> (\<lambda>p. (b, p)) ` fst ` set rest"
    using Cons.prems by auto
  show ?case
    unfolding update_ddb_items_Cons_table
    by (subst Cons.IH[OF k(2)]) (use k(1) in \<open>simp add: update_item_step\<close>)
qed

lemma update_ddb_items_nth:
  "distinct (map fst md) \<Longrightarrow> i < length md \<Longrightarrow>
     map_of (ddb_mapping_table (snd (update_ddb_items b md w))) (b, fst (md ! i))
       = Some (spec_reconciled_item (map_of (ddb_mapping_table w) (b, fst (md ! i)))
                 (snd (md ! i)) (clock w (ticks w + i)))"
proof (induction md arbitrary: w i)
  case Nil
  then show ?case by simp
next
  case (Cons pe rest)
  show ?case
  proof (cases i)
    case 0
    have "(b, fst pe) \<notin> (\<lambda>p. (b, p)) ` fst ` set rest"
      using Cons.prems(1) by auto
    then show ?thesis
      unfolding update_ddb_items_Cons_table using 0
      by (simp add: update_ddb_items_frame update_item_step)
  next
    case (Suc j)
    then have j: "j < length rest" using Cons.prems(2) by simp
    have d: "distinct (map fst rest)" using Cons.prems(1) by simp
    have ne: "fst (rest ! j) \<noteq> fst pe"
      using Cons.prems(1) j by (metis distinct.simps(2) list.simps(9) nth_mem image_eqI set_map)
    show ?thesis
      unfolding update_ddb_items_Cons_table using Suc ne
      by (simp add: Cons.IH[OF d j] update_item_step)
  qed
qed

lemma set_query_table:
  "set (query_table tbl b) = {key \<in> fst ` set tbl. fst key = b}"
  by (auto simp: query_table_def)

lemma delete_missing_map_of:
  "map_of (delete_missing md keys tbl) key
     = (if key \<in> set keys \<and> snd key \<notin> fst ` set md then None else map_of tbl key)"
  by (induction keys arbitrary: tbl) (auto simp: delete_item_def delete_conv')

lemma delete_missing_ok: "table_ok tbl \<Longrightarrow> table_ok (delete_missing md keys tbl)"
  by (induction keys arbitrary: tbl) (auto simp: delete_item_def table_ok_def distinct_delete)

lemma delete_missing_ddb_items_map_of:
  "map_of (ddb_mapping_table (delete_missing_ddb_items b md w)) (b', p)
     = (if b' = b \<and> p \<notin> fst ` set md then None else map_of (ddb_mapping_table w) (b', p))"
  by (auto simp: delete_missing_ddb_items_def delete_missing_map_of set_query_table
        map_of_eq_None_iff)

lemma on_update_eq:
  "on_update event w =
     (Inr (PhysicalResourceId event),
      delete_missing_ddb_items (BucketName event) (MappingData event)
        (snd (update_ddb_items (BucketName event) (MappingData event) w)))"
  using update_ddb_items_shape[of "BucketName event" "MappingData event" w]
  by (auto simp: on_update_def)

lemma on_update_table_ok:
  "table_ok (ddb_mapping_table w) \<Longrightarrow> table_ok (ddb_mapping_table (snd (on_update event w)))"
  using update_ddb_items_shape[of "BucketName event" "MappingData event" w]
  by (auto simp: on_update_eq delete_missing_ddb_items_def delete_missing_ok)

lemma on_update_other_bucket:
  "b' \<noteq> BucketName event \<Longrightarrow>
     map_of (ddb_mapping_table (snd (on_update event w))) (b', p)
       = map_of (ddb_mapping_table w) (b', p)"
proof -
  assume ne: "b' \<noteq> BucketName event"
  then have "(b', p) \<notin> (\<lambda>p. (BucketName event, p)) ` fst ` set (MappingData event)"
    by auto
  from update_ddb_items_frame[OF this] ne show ?thesis
    by (simp add: on_update_eq delete_missing_ddb_items_map_of)
qed

lemma on_update_absent:
  "p \<notin> fst ` set (MappingData event) \<Longrightarrow>
     map_of (ddb_mapping_table (snd (on_update event w))) (BucketName event, p) = None"
  by (simp add: on_update_eq delete_missing_ddb_items_map_of)

lemma on_update_nth:
  "dict_ok (MappingData event) \<Longrightarrow> i < length (MappingData event) \<Longrightarrow>
     map_of (ddb_mapping_table (snd (on_update event w)))
        (BucketName event, fst (MappingData event ! i))
       = Some (spec_reconciled_item
                 (map_of (ddb_mapping_table w) (BucketName event, fst (MappingData event ! i)))
                 (snd (MappingData event ! i)) (clock w (ticks w + i)))"
  by (simp add: on_update_eq delete_missing_ddb_items_map_of update_ddb_items_nth dict_ok_def)

lemma on_update_insert_ts:
  assumes d: "dict_ok (MappingData event)"
    and old: "map_of (ddb_mapping_table w) (b', q) = Some old"
    and new: "map_of (ddb_mapping_table (snd (on_update event w))) (b', q) = Some new"
  shows "insert_ts new = insert_ts old"
proof (cases "b' = BucketName event")
  case False
  with old new show ?thesis by (simp add: on_update_other_bucket)
next
  case True
  show ?thesis
  proof (cases "q \<in> fst ` set (MappingData event)")
    case False
    with new True show ?thesis by (simp add: on_update_absent)
  next
    case q: True
    then obtain i where i: "i < length (MappingData event)" "fst (MappingData event ! i) = q"
      by (metis imageE in_set_conv_nth)
    from on_update_nth[OF d i(1), of w] new old True i(2) show ?thesis
      by (auto simp: spec_reconciled_item_def split: if_splits)
  qed
qed

text \<open>
  Claim C2. When \<open>on_update\<close> returns, the records of the bucket are exactly the desired
  entries: every prefix of the mapping data has a record with the desired key and flag,
  and no other prefix of the bucket has a record. A prefix that had no record is inserted
  with both timestamps at the time of its write, a record whose key or flag differed has
  the desired ones, and a record whose prefix is not in the mapping data is deleted.
  Records of other buckets are as they were.
\<close>

theorem reconcile_exact:
  assumes ok: "table_ok (ddb_mapping_table w)" and d: "dict_ok (MappingData event)"
    and run: "on_update event w = (Inr r, w')"
  shows "(\<forall>p. map_option (\<lambda>it. (kms_key_arn it, dual_layer_encryption it))
                 (map_of (ddb_mapping_table w') (BucketName event, p))
             = map_option (\<lambda>e. (md_kms_key_arn e, md_dual_layer_encryption e = ''true''))
                 (map_of (MappingData event) p))
       \<and> (\<forall>i<length (MappingData event).
            map_of (ddb_mapping_table w) (BucketName event, fst (MappingData event ! i)) = None
            \<longrightarrow> map_of (ddb_mapping_table w') (BucketName event, fst (MappingData event ! i))
                  = Some \<lparr>kms_key_arn = md_kms_key_arn (snd (MappingData event ! i)),
                          dual_layer_encryption =
                            (md_dual_layer_encryption (snd (MappingData event ! i)) = ''true''),
                          insert_ts = clock w (ticks w + i),
                          last_update_ts = clock w (ticks w + i)\<rparr>)
       \<and> (\<forall>i<length (MappingData event). \<forall>it.
            map_of (ddb_mapping_table w) (BucketName event, fst (MappingData event ! i)) = Some it
            \<and> (kms_key_arn it \<noteq> md_kms_key_arn (snd (MappingData event ! i))
               \<or> dual_layer_encryption it
                   \<noteq> (md_dual_layer_encryption (snd (MappingData event ! i)) = ''true''))
            \<longrightarrow> map_of (ddb_mapping_table w') (BucketName event, fst (MappingData event ! i))
                  = Some \<lparr>kms_key_arn = md_kms_key_arn (snd (MappingData event ! i)),
                          dual_layer_encryption =
                            (md_dual_layer_encryption (snd (MappingData event ! i)) = ''true''),
                          insert_ts = insert_ts it,
                          last_update_ts = clock w (ticks w + i)\<rparr>)
       \<and> (\<forall>p. p \<notin> fst ` set (MappingData event)
            \<longrightarrow> map_of (ddb_mapping_table w') (BucketName event, p) = None)
       \<and> (\<forall>b' p. b' \<noteq> BucketName event
            \<longrightarrow> map_of (ddb_mapping_table w') (b', p) = map_of (ddb_mapping_table w) (b', p))
       \<and> table_ok (ddb_mapping_table w')
       \<and> r = PhysicalResourceId event"
proof -
  from run have w': "w' = snd (on_update event w)" and r: "r = PhysicalResourceId event"
    by (simp_all add: on_update_eq)
  have exact: "map_option (\<lambda>it. (kms_key_arn it, dual_layer_encryption it))
                 (map_of (ddb_mapping_table w') (BucketName event, p))
             = map_option (\<lambda>e. (md_kms_key_arn e, md_dual_layer_encryption e = ''true''))
                 (map_of (MappingData event) p)" for p
  proof (cases "p \<in> fst ` set (MappingData event)")
    case False
    then have "map_of (MappingData event) p = None" by (simp add: map_of_eq_None_iff)
    with False show ?thesis by (simp add: w' on_update_absent)
  next
    case True
    then obtain i where i: "i < length (MappingData event)" "fst (MappingData event ! i) = p"
      by (metis imageE in_set_conv_nth)
    then have "(p, snd (MappingData event ! i)) \<in> set (MappingData event)"
      by (metis nth_mem prod.collapse)
    with d have m: "map_of (MappingData event) p = Some (snd (MappingData event ! i))"
      by (simp add: dict_ok_def)
    from on_update_nth[OF d i(1), of w] i(2) m show ?thesis
      by (auto simp: w' spec_reconciled_item_def split: option.splits)
  qed
  have ins: "\<forall>i<length (MappingData event).
            map_of (ddb_mapping_table w) (BucketName event, fst (MappingData event ! i)) = None
            \<longrightarrow> map_of (ddb_mapping_table w') (BucketName event, fst (MappingData event ! i))
                  = Some \<lparr>kms_key_arn = md_kms_key_arn (snd (MappingData event ! i)),
                          dual_layer_encryption =
                            (md_dual_layer_encryption (snd (MappingData event ! i)) = ''true''),
                          insert_ts = clock w (ticks w + i),
                          last_update_ts = clock w (ticks w + i)\<rparr>"
    by (simp add: w' on_update_nth[OF d] spec_reconciled_item_def)
  have upd: "\<forall>i<length (MappingData event). \<forall>it.
            map_of (ddb_mapping_table w) (BucketName event, fst (MappingData event ! i)) = Some it
            \<and> (kms_key_arn it \<noteq> md_kms_key_arn (snd (MappingData event ! i))
               \<or> dual_layer_encryption it
                   \<noteq> (md_dual_layer_encryption (snd (MappingData event ! i)) = ''true''))
            \<longrightarrow> map_of (ddb_mapping_table w') (BucketName event, fst (MappingData event ! i))
                  = Some \<lparr>kms_key_arn = md_kms_key_arn (snd (MappingData event ! i)),
                          dual_layer_encryption =
                            (md_dual_layer_encryption (snd (MappingData event ! i)) = ''true''),
                          insert_ts = insert_ts it,
                          last_update_ts = clock w (ticks w + i)\<rparr>"
    by (auto simp: w' on_update_nth[OF d] spec_reconciled_item_def)
  show ?thesis
    using exact ins upd r
    by (simp add: w' on_update_absent on_update_other_bucket on_update_table_ok[OF ok])
qed

lemma reconcile_run: "on_update reconcile_event reconcile_world
   = (Inr ''CRToManageMappingForBucketb'', snd (on_update reconcile_event reconcile_world))"
  by (simp add: on_update_eq reconcile_event_def)

lemma reconcile_demo_table:
  "ddb_mapping_table (snd (on_update reconcile_event reconcile_world))
     = [((''b'', ''p1''), demo_item ''k1'' False),
        ((''other'', ''p2''), demo_item ''k7'' True),
        ((''b'', ''p3''), \<lparr>kms_key_arn = ''k3'', dual_layer_encryption = True,
                            insert_ts = ''Ti'', last_update_ts = ''Ti''\<rparr>)]"
  by (simp add: on_update_def reconcile_event_def reconcile_world_def now_utc_def update_item_def
        demo_item_def demo_clock_def if_not_exists_def delete_missing_ddb_items_def query_table_def
        delete_item_def)


theorem reconcile_exact_witness:
  "table_ok (ddb_mapping_table reconcile_world) \<and> dict_ok (MappingData reconcile_event)
   \<and> fst (on_update reconcile_event reconcile_world) = Inr ''CRToManageMappingForBucketb''
   \<and> ddb_mapping_table (snd (on_update reconcile_event reconcile_world))
       = [((''b'', ''p1''), demo_item ''k1'' False),
          ((''other'', ''p2''), demo_item ''k7'' True),
          ((''b'', ''p3''), \<lparr>kms_key_arn = ''k3'', dual_layer_encryption = True,
                              insert_ts = ''Ti'', last_update_ts = ''Ti''\<rparr>)]
   \<and> map_of (ddb_mapping_table (snd (on_update reconcile_event reconcile_world))) (''b'', ''p2'')
       = None"
proof -
  have ok: "table_ok (ddb_mapping_table reconcile_world)"
    by (simp add: table_ok_def reconcile_world_def)
  have d: "dict_ok (MappingData reconcile_event)"
    by (simp add: dict_ok_def reconcile_event_def)
  have p2: "''p2'' \<notin> fst ` set (MappingData reconcile_event)"
    by (simp add: reconcile_event_def)
  from reconcile_exact[OF ok d reconcile_run] p2
  have "map_of (ddb_mapping_table (snd (on_update reconcile_event reconcile_world)))
          (BucketName reconcile_event, ''p2'') = None"
    by blast
  moreover have "BucketName reconcile_event = ''b''"
    by (simp add: reconcile_event_def)
  moreover have "fst (on_update reconcile_event reconcile_world)
                   = Inr ''CRToManageMappingForBucketb''"
    by (simp add: on_update_eq reconcile_event_def)
  ultimately show ?thesis
    using ok d reconcile_demo_table by simp
qed

text \<open>
  Claim C5. A record whose key and flag already equal the desired ones is the same record
  after \<open>on_update\<close>, \<open>last_update_ts\<close> included. The conditional update of such a
  record raises \<open>ConditionalCheckFailedException\<close>, the loop goes on to the next prefix
  with the table as it was, and \<open>on_update\<close> returns normally.
\<close>

theorem reconcile_no_op_write:
  assumes d: "dict_ok (MappingData event)"
    and e: "map_of (MappingData event) p = Some e"
    and it: "map_of (ddb_mapping_table w) (BucketName event, p) = Some it"
    and same: "kms_key_arn it = md_kms_key_arn e"
      "dual_layer_encryption it = (md_dual_layer_encryption e = ''true'')"
  shows "map_of (ddb_mapping_table (snd (on_update event w))) (BucketName event, p) = Some it
       \<and> fst (on_update event w) = Inr (PhysicalResourceId event)
       \<and> (\<forall>t. update_item (ddb_mapping_table w) (BucketName event, p) (md_kms_key_arn e)
                 (md_dual_layer_encryption e = ''true'') t
               = Inl ConditionalCheckFailedException)
       \<and> (\<forall>rest. update_ddb_items (BucketName event) ((p, e) # rest) w
                 = update_ddb_items (BucketName event) rest (w\<lparr>ticks := Suc (ticks w)\<rparr>))"
proof -
  from e have "(p, e) \<in> set (MappingData event)" by (rule map_of_SomeD)
  then obtain i where i: "i < length (MappingData event)" "MappingData event ! i = (p, e)"
    by (auto simp: in_set_conv_nth)
  from on_update_nth[OF d i(1), of w] i(2) it same
  have 1: "map_of (ddb_mapping_table (snd (on_update event w))) (BucketName event, p) = Some it"
    by (simp add: spec_reconciled_item_def)
  have 3: "update_item (ddb_mapping_table w) (BucketName event, p) (md_kms_key_arn e)
                 (md_dual_layer_encryption e = ''true'') t
               = Inl ConditionalCheckFailedException" for t
    using it same by (simp add: update_item_def)
  have 4: "update_ddb_items (BucketName event) ((p, e) # rest) w
                 = update_ddb_items (BucketName event) rest (w\<lparr>ticks := Suc (ticks w)\<rparr>)" for rest
    using 3 by (simp add: now_utc_def)
  from 1 3 4 show ?thesis by (simp add: on_update_eq)
qed

theorem reconcile_no_op_write_witness:
  "dict_ok (MappingData reconcile_event)
   \<and> map_of (MappingData reconcile_event) ''p1''
       = Some \<lparr>md_kms_key_arn = ''k1'', md_dual_layer_encryption = ''false''\<rparr>
   \<and> map_of (ddb_mapping_table reconcile_world) (''b'', ''p1'') = Some (demo_item ''k1'' False)
   \<and> map_of (ddb_mapping_table (snd (on_update reconcile_event reconcile_world))) (''b'', ''p1'')
       = Some (demo_item ''k1'' False)
   \<and> last_update_ts (demo_item ''k1'' False) = ''t0''
   \<and> fst (on_update reconcile_event reconcile_world) = Inr ''CRToManageMappingForBucketb''"
proof -
  have d: "dict_ok (MappingData reconcile_event)"
    by (simp add: dict_ok_def reconcile_event_def)
  have e: "map_of (MappingData reconcile_event) ''p1''
       = Some \<lparr>md_kms_key_arn = ''k1'', md_dual_layer_encryption = ''false''\<rparr>"
    by (simp add: reconcile_event_def)
  have it: "map_of (ddb_mapping_table reconcile_world) (BucketName reconcile_event, ''p1'')
       = Some (demo_item ''k1'' False)"
    by (simp add: reconcile_event_def reconcile_world_def)
  have same: "kms_key_arn (demo_item ''k1'' False)
                = md_kms_key_arn \<lparr>md_kms_key_arn = ''k1'', md_dual_layer_encryption = ''false''\<rparr>"
     "dual_layer_encryption (demo_item ''k1'' False)
        = (md_dual_layer_encryption \<lparr>md_kms_key_arn = ''k1'', md_dual_layer_encryption = ''false''\<rparr>
            = ''true'')"
    by (simp_all add: demo_item_def)
  have b: "BucketName reconcile_event = ''b''"
    "PhysicalResourceId reconcile_event = ''CRToManageMappingForBucketb''"
    by (simp_all add: reconcile_event_def)
  from reconcile_no_op_write[OF d e it same] d e it show ?thesis
    by (simp add: b demo_item_def)
qed

text \<open>
  Claim C6. A record whose key or flag differs from the desired ones has, after
  \<open>on_update\<close>, the desired key and flag, the clock reading of its update as
  \<open>last_update_ts\<close>, and the \<open>insert_ts\<close> it had. No record that is there before and
  after has a different \<open>insert_ts\<close>, and a prefix that had no record gets the clock
  reading of its insertion as \<open>insert_ts\<close>.
\<close>

theorem reconcile_keeps_insert_ts:
  assumes d: "dict_ok (MappingData event)"
    and i: "i < length (MappingData event)" "MappingData event ! i = (p, e)"
    and it: "map_of (ddb_mapping_table w) (BucketName event, p) = Some it"
    and diff: "kms_key_arn it \<noteq> md_kms_key_arn e
               \<or> dual_layer_encryption it \<noteq> (md_dual_layer_encryption e = ''true'')"
  shows "map_of (ddb_mapping_table (snd (on_update event w))) (BucketName event, p)
           = Some \<lparr>kms_key_arn = md_kms_key_arn e,
                   dual_layer_encryption = (md_dual_layer_encryption e = ''true''),
                   insert_ts = insert_ts it,
                   last_update_ts = clock w (ticks w + i)\<rparr>
       \<and> (\<forall>b' q old new.
             map_of (ddb_mapping_table w) (b', q) = Some old
             \<and> map_of (ddb_mapping_table (snd (on_update event w))) (b', q) = Some new
             \<longrightarrow> insert_ts new = insert_ts old)
       \<and> (\<forall>j<length (MappingData event).
             map_of (ddb_mapping_table w) (BucketName event, fst (MappingData event ! j)) = None
             \<longrightarrow> map_option insert_ts
                   (map_of (ddb_mapping_table (snd (on_update event w)))
                      (BucketName event, fst (MappingData event ! j)))
                 = Some (clock w (ticks w + j)))"
proof -
  from on_update_nth[OF d i(1), of w] i(2) it diff
  have 1: "map_of (ddb_mapping_table (snd (on_update event w))) (BucketName event, p)
           = Some \<lparr>kms_key_arn = md_kms_key_arn e,
                   dual_layer_encryption = (md_dual_layer_encryption e = ''true''),
                   insert_ts = insert_ts it,
                   last_update_ts = clock w (ticks w + i)\<rparr>"
    by (auto simp: spec_reconciled_item_def)
  have 2: "\<forall>b' q old new.
             map_of (ddb_mapping_table w) (b', q) = Some old
             \<and> map_of (ddb_mapping_table (snd (on_update event w))) (b', q) = Some new
             \<longrightarrow> insert_ts new = insert_ts old"
    using on_update_insert_ts[OF d] by blast
  have 3: "\<forall>j<length (MappingData event).
             map_of (ddb_mapping_table w) (BucketName event, fst (MappingData event ! j)) = None
             \<longrightarrow> map_option insert_ts
                   (map_of (ddb_mapping_table (snd (on_update event w)))
                      (BucketName event, fst (MappingData event ! j)))
                 = Some (clock w (ticks w + j))"
    by (simp add: on_update_nth[OF d] spec_reconciled_item_def)
  from 1 2 3 show ?thesis by blast
qed

theorem reconcile_keeps_insert_ts_witness:
  "dict_ok (MappingData rekey_event)
   \<and> map_of (ddb_mapping_table reconcile_world) (''b'', ''p1'')
       = Some \<lparr>kms_key_arn = ''k1'', dual_layer_encryption = False,
               insert_ts = ''t0'', last_update_ts = ''t0''\<rparr>
   \<and> map_of (ddb_mapping_table (snd (on_update rekey_event reconcile_world))) (''b'', ''p1'')
       = Some \<lparr>kms_key_arn = ''k9'', dual_layer_encryption = False,
               insert_ts = ''t0'', last_update_ts = ''Ti''\<rparr>"
proof -
  have d: "dict_ok (MappingData rekey_event)"
    by (simp add: dict_ok_def rekey_event_def)
  have i: "1 < length (MappingData rekey_event)"
    "MappingData rekey_event ! 1
       = (''p1'', \<lparr>md_kms_key_arn = ''k9'', md_dual_layer_encryption = ''false''\<rparr>)"
    by (simp_all add: rekey_event_def)
  have it: "map_of (ddb_mapping_table reconcile_world) (BucketName rekey_event, ''p1'')
       = Some (demo_item ''k1'' False)"
    by (simp add: rekey_event_def reconcile_world_def)
  have diff: "kms_key_arn (demo_item ''k1'' False)
                \<noteq> md_kms_key_arn \<lparr>md_kms_key_arn = ''k9'', md_dual_layer_encryption = ''false''\<rparr>
              \<or> dual_layer_encryption (demo_item ''k1'' False)
                \<noteq> (md_dual_layer_encryption
                      \<lparr>md_kms_key_arn = ''k9'', md_dual_layer_encryption = ''false''\<rparr> = ''true'')"
    by (simp add: demo_item_def)
  have b: "BucketName rekey_event = ''b''"
    by (simp add: rekey_event_def)
  have c: "clock reconcile_world (Suc (ticks reconcile_world)) = ''Ti''"
    by (simp add: reconcile_world_def demo_clock_def)
  from reconcile_keeps_insert_ts[OF d i it diff] d it show ?thesis
    by (simp add: b c demo_item_def)
qed

section \<open>Remediation of one object\<close>

lemma log_action_fields [simp]:
  "clock (log_action_into_ddb p cs ck ns nk a r nv w) = clock w"
  "ticks (log_action_into_ddb p cs ck ns nk a r nv w) = Suc (ticks w)"
  "ddb_mapping_table (log_action_into_ddb p cs ck ns nk a r nv w) = ddb_mapping_table w"
  "s3_versioning (log_action_into_ddb p cs ck ns nk a r nv w) = s3_versioning w"
  "s3_objects (log_action_into_ddb p cs ck ns nk a r nv w) = s3_objects w"
  "s3_new_version_id (log_action_into_ddb p cs ck ns nk a r nv w) = s3_new_version_id w"
  by (simp_all add: log_action_into_ddb_def now_utc_def)

lemma log_action_table:
  "ddb_log_table (log_action_into_ddb p cs ck ns nk a r nv w)
     = put_item (p, clock w (ticks w))
         \<lparr>log_s3_object_path = p,
          log_current_timestamp_utc = clock w (ticks w),
          log_current_sse_type = cs,
          log_current_kms_key_arn = (if truthy ck then format_opt ck else ''None''),
          log_new_sse_type = ns,
          log_new_kms_key_arn = nk,
          log_action_taken = a,
          log_action_reason = r,
          log_new_version_id = (if truthy nv then nv else None)\<rparr>
         (ddb_log_table w)"
  by (simp add: log_action_into_ddb_def now_utc_def)

lemma get_object_cong:
  "s3_objects w1 = s3_objects w2 \<Longrightarrow> get_object w1 b k v = get_object w2 b k v"
  by (cases v) (simp_all add: get_object_def)

lemma fix_unconfigured:
  assumes "get_object w b k (if truthy version_id then version_id else None) = Inr obj"
    and "s3_sse obj = Some cur"
    and "get_kms_key_info_for_s3_prefix (ddb_mapping_table w) b k = None"
  shows "fix_encryption_if_incorrect b k version_id w
     = (Inr (), log_action_into_ddb
          (s3_object_path_of b k (if truthy version_id then version_id else None))
          cur (s3_sse_kms_key_id obj) ''None'' ''None'' ''None'' no_key_reason None w)"
  using assms by (simp add: fix_encryption_if_incorrect_def Let_def)

lemma fix_compliant:
  assumes "get_object w b k (if truthy version_id then version_id else None) = Inr obj"
    and "get_kms_key_info_for_s3_prefix (ddb_mapping_table w) b k = Some info"
    and "s3_sse obj = Some (new_sse_type_for (info_dual_layer_encryption info))"
    and "s3_sse_kms_key_id obj = Some (info_kms_key_arn info)"
  shows "fix_encryption_if_incorrect b k version_id w
     = (Inr (), log_action_into_ddb
          (s3_object_path_of b k (if truthy version_id then version_id else None))
          (new_sse_type_for (info_dual_layer_encryption info))
          (Some (info_kms_key_arn info))
          (new_sse_type_for (info_dual_layer_encryption info))
          (info_kms_key_arn info) ''None'' ''Already using the correct key'' None w)"
  using assms by (simp add: fix_encryption_if_incorrect_def Let_def)

lemma fix_mismatch_versioned:
  assumes obj: "get_object w b k (if truthy version_id then version_id else None) = Inr obj"
    and cur: "s3_sse obj = Some cur"
    and pol: "get_kms_key_info_for_s3_prefix (ddb_mapping_table w) b k = Some info"
    and mis: "\<not> (cur = new_sse_type_for (info_dual_layer_encryption info)
                \<and> s3_sse_kms_key_id obj = Some (info_kms_key_arn info))"
    and vid: "(if truthy version_id then version_id else None) = Some i"
  shows "fix_encryption_if_incorrect b k version_id w
     = (case copy_object w b k i (info_kms_key_arn info)
               (new_sse_type_for (info_dual_layer_encryption info)) of
          (Inl e, w1) \<Rightarrow> (Inl e, w1)
        | (Inr None, w1) \<Rightarrow> (Inl (KeyError ''VersionId''), w1)
        | (Inr (Some new_version_id), w1) \<Rightarrow>
            (Inr (),
             log_action_into_ddb (s3_object_path_of b k (Some i))
               cur (s3_sse_kms_key_id obj) ''N/A'' ''N/A''
               ''Deleted old version with incorrect encryption'' ''N/A'' None
               (delete_object
                  (log_action_into_ddb (s3_object_path_of b k (Some i))
                     cur (s3_sse_kms_key_id obj)
                     (new_sse_type_for (info_dual_layer_encryption info))
                     (info_kms_key_arn info) ''Initiated copy with the right key''
                     (action_reason_for cur (s3_sse_kms_key_id obj)
                        (new_sse_type_for (info_dual_layer_encryption info))
                        (info_kms_key_arn info))
                     (Some new_version_id) w1)
                  b k i)))"
  using obj cur pol mis unfolding fix_encryption_if_incorrect_def vid
  by (auto simp add: Let_def vid split: prod.splits sum.splits option.splits)

lemma fix_mismatch_unversioned:
  assumes obj: "get_object w b k (if truthy version_id then version_id else None) = Inr obj"
    and cur: "s3_sse obj = Some cur"
    and pol: "get_kms_key_info_for_s3_prefix (ddb_mapping_table w) b k = Some info"
    and mis: "\<not> (cur = new_sse_type_for (info_dual_layer_encryption info)
                \<and> s3_sse_kms_key_id obj = Some (info_kms_key_arn info))"
    and vid: "(if truthy version_id then version_id else None) = None"
  shows "fix_encryption_if_incorrect b k version_id w
     = (case copy w b k (info_kms_key_arn info)
               (new_sse_type_for (info_dual_layer_encryption info)) of
          (Inl e, w1) \<Rightarrow> (Inl e, w1)
        | (Inr u, w1) \<Rightarrow>
            (Inr (),
             log_action_into_ddb (s3_object_path_of b k None)
               cur (s3_sse_kms_key_id obj)
               (new_sse_type_for (info_dual_layer_encryption info))
               (info_kms_key_arn info) ''Initiated copy with the right key''
               (action_reason_for cur (s3_sse_kms_key_id obj)
                  (new_sse_type_for (info_dual_layer_encryption info))
                  (info_kms_key_arn info))
               None w1))"
  using obj cur pol mis unfolding fix_encryption_if_incorrect_def vid
  by (auto simp add: Let_def vid split: prod.splits sum.splits option.splits)

lemma fix_get_fails:
  "get_object w b k (if truthy version_id then version_id else None) = Inl e \<Longrightarrow>
     fix_encryption_if_incorrect b k version_id w = (Inl e, w)"
  by (simp add: fix_encryption_if_incorrect_def Let_def)


lemma store_copy_fields [simp]:
  "clock (snd (store_copy w b k src nk ns)) = clock w"
  "ticks (snd (store_copy w b k src nk ns)) = ticks w"
  "ddb_mapping_table (snd (store_copy w b k src nk ns)) = ddb_mapping_table w"
  "ddb_log_table (snd (store_copy w b k src nk ns)) = ddb_log_table w"
  "s3_versioning (snd (store_copy w b k src nk ns)) = s3_versioning w"
  "s3_new_version_id (snd (store_copy w b k src nk ns)) = s3_new_version_id w"
  by (simp_all add: store_copy_def Let_def)

lemma delete_object_fields [simp]:
  "clock (delete_object w b k i) = clock w"
  "ticks (delete_object w b k i) = ticks w"
  "ddb_mapping_table (delete_object w b k i) = ddb_mapping_table w"
  "ddb_log_table (delete_object w b k i) = ddb_log_table w"
  "s3_versioning (delete_object w b k i) = s3_versioning w"
  "s3_new_version_id (delete_object w b k i) = s3_new_version_id w"
  by (simp_all add: delete_object_def)





subsection \<open>An object without a policy\<close>

text \<open>
  Claim C8. For an object that is there and reports its encryption type, in a bucket
  with no configured prefix that the object name starts with, the remediation returns
  normally. The world after it is the world before it with one more reading of the
  clock and one item put into the log table, with action \<open>None\<close> and the reason that no
  key is configured for the prefix of the object. The object store is as it was.
\<close>

theorem remediation_unconfigured:
  assumes obj: "get_object w b k (if truthy version_id then version_id else None) = Inr obj"
    and cur: "s3_sse obj = Some cur"
    and none: "\<forall>p it. ((b, p), it) \<in> set (ddb_mapping_table w) \<longrightarrow> \<not> startswith k p"
  shows "fix_encryption_if_incorrect b k version_id w
           = (Inr (),
              w\<lparr>ticks := Suc (ticks w),
                ddb_log_table :=
                  put_item (s3_object_path_of b k (if truthy version_id then version_id else None),
                            clock w (ticks w))
                    \<lparr>log_s3_object_path =
                       s3_object_path_of b k (if truthy version_id then version_id else None),
                     log_current_timestamp_utc = clock w (ticks w),
                     log_current_sse_type = cur,
                     log_current_kms_key_arn =
                       (if truthy (s3_sse_kms_key_id obj) then format_opt (s3_sse_kms_key_id obj)
                        else ''None''),
                     log_new_sse_type = ''None'',
                     log_new_kms_key_arn = ''None'',
                     log_action_taken = ''None'',
                     log_action_reason = no_key_reason,
                     log_new_version_id = None\<rparr>
                    (ddb_log_table w)\<rparr>)
       \<and> s3_objects (snd (fix_encryption_if_incorrect b k version_id w)) = s3_objects w"
proof -
  from none have "get_kms_key_info_for_s3_prefix (ddb_mapping_table w) b k = None"
    by (intro resolver_no_match) (simp add: startswith_def)
  from fix_unconfigured[OF obj cur this] show ?thesis
    by (simp add: log_action_into_ddb_def now_utc_def truthy_def)
qed


lemma demo_policy_x:
  "get_kms_key_info_for_s3_prefix (ddb_mapping_table demo_world) ''b'' ''a/x''
     = Some \<lparr>info_kms_key_arn = ''k1'', info_dual_layer_encryption = False\<rparr>"
  by (simp add: get_kms_key_info_for_s3_prefix_def query_prefix_le_def candidates_desc_def
        ddb_page_limit_def mapping_item_size_def demo_world_def
        demo_table_def demo_item_def startswith_def)

lemma demo_policy_vk:
  "get_kms_key_info_for_s3_prefix (ddb_mapping_table demo_world) ''vb'' ''a/k''
     = Some \<lparr>info_kms_key_arn = ''k1'', info_dual_layer_encryption = False\<rparr>"
  by (simp add: get_kms_key_info_for_s3_prefix_def query_prefix_le_def candidates_desc_def
        ddb_page_limit_def mapping_item_size_def demo_world_def
        demo_table_def demo_item_def startswith_def)


theorem remediation_unconfigured_witness:
  "get_object demo_world ''b'' ''z/y'' None
     = Inr \<lparr>s3_version_id = ''null'', s3_content = ''data2'',
             s3_sse = Some ''AES256'', s3_sse_kms_key_id = None\<rparr>
   \<and> fst (fix_encryption_if_incorrect ''b'' ''z/y'' None demo_world) = Inr ()
   \<and> s3_objects (snd (fix_encryption_if_incorrect ''b'' ''z/y'' None demo_world))
       = s3_objects demo_world
   \<and> ddb_log_table (snd (fix_encryption_if_incorrect ''b'' ''z/y'' None demo_world))
       = [((''s3://b/a/x'', ''Told''), old_log_item),
          ((''s3://b/z/y'', ''T''),
           \<lparr>log_s3_object_path = ''s3://b/z/y'', log_current_timestamp_utc = ''T'',
            log_current_sse_type = ''AES256'', log_current_kms_key_arn = ''None'',
            log_new_sse_type = ''None'', log_new_kms_key_arn = ''None'',
            log_action_taken = ''None'', log_action_reason = no_key_reason,
            log_new_version_id = None\<rparr>)]"
proof -
  have obj: "get_object demo_world ''b'' ''z/y'' (if truthy None then None else None)
     = Inr \<lparr>s3_version_id = ''null'', s3_content = ''data2'',
             s3_sse = Some ''AES256'', s3_sse_kms_key_id = None\<rparr>"
    by (simp add: get_object_def demo_world_def)
  have cur: "s3_sse \<lparr>s3_version_id = ''null'', s3_content = ''data2'',
             s3_sse = Some ''AES256'', s3_sse_kms_key_id = None\<rparr> = Some ''AES256''"
    by simp
  have none: "\<forall>p it. ((''b'', p), it) \<in> set (ddb_mapping_table demo_world)
                \<longrightarrow> \<not> startswith ''z/y'' p"
    by (auto simp: demo_world_def demo_table_def startswith_def)
  have env: "clock demo_world (ticks demo_world) = ''T''"
    "ddb_log_table demo_world = [((''s3://b/a/x'', ''Told''), old_log_item)]"
    by (simp_all add: demo_world_def demo_clock_def)
  from remediation_unconfigured[OF obj cur none] obj show ?thesis
    by (simp add: env put_item_def s3_object_path_of_def truthy_def)
qed


subsection \<open>Rewriting a version\<close>

text \<open>
  The effect of the remediation on a version with the wrong encryption, when the copy
  is within the size that \<open>copy_object\<close> accepts.
\<close>

lemma versioned_rewrite_effect:
  assumes v: "version_id = Some i" "i \<noteq> []"
    and ver: "s3_versioning w b"
    and obj: "find (\<lambda>v. s3_version_id v = i) (s3_objects w (b, k)) = Some obj"
    and cur: "s3_sse obj = Some cur"
    and pol: "get_kms_key_info_for_s3_prefix (ddb_mapping_table w) b k = Some info"
    and mis: "\<not> (cur = new_sse_type_for (info_dual_layer_encryption info)
                \<and> s3_sse_kms_key_id obj = Some (info_kms_key_arn info))"
    and fresh: "s3_new_version_id w (s3_objects w (b, k))
                  \<notin> s3_version_id ` set (s3_objects w (b, k))"
    and nonempty: "s3_new_version_id w (s3_objects w (b, k)) \<noteq> []"
    and small: "length (s3_content obj) \<le> copy_object_limit"
  shows "fst (fix_encryption_if_incorrect b k version_id w) = Inr ()
       \<and> s3_objects (snd (fix_encryption_if_incorrect b k version_id w))
           = (s3_objects w)((b, k) :=
                \<lparr>s3_version_id = s3_new_version_id w (s3_objects w (b, k)),
                 s3_content = s3_content obj,
                 s3_sse = Some (new_sse_type_for (info_dual_layer_encryption info)),
                 s3_sse_kms_key_id = Some (info_kms_key_arn info)\<rparr>
                # filter (\<lambda>v. s3_version_id v \<noteq> i) (s3_objects w (b, k)))
       \<and> ddb_log_table (snd (fix_encryption_if_incorrect b k version_id w))
           = put_item (''s3://'' @ b @ ''/'' @ k @ ''?versionId='' @ i, clock w (Suc (ticks w)))
               \<lparr>log_s3_object_path = ''s3://'' @ b @ ''/'' @ k @ ''?versionId='' @ i,
                log_current_timestamp_utc = clock w (Suc (ticks w)),
                log_current_sse_type = cur,
                log_current_kms_key_arn =
                  (if truthy (s3_sse_kms_key_id obj) then format_opt (s3_sse_kms_key_id obj)
                   else ''None''),
                log_new_sse_type = ''N/A'',
                log_new_kms_key_arn = ''N/A'',
                log_action_taken = ''Deleted old version with incorrect encryption'',
                log_action_reason = ''N/A'',
                log_new_version_id = None\<rparr>
               (put_item (''s3://'' @ b @ ''/'' @ k @ ''?versionId='' @ i, clock w (ticks w))
                  \<lparr>log_s3_object_path = ''s3://'' @ b @ ''/'' @ k @ ''?versionId='' @ i,
                   log_current_timestamp_utc = clock w (ticks w),
                   log_current_sse_type = cur,
                   log_current_kms_key_arn =
                     (if truthy (s3_sse_kms_key_id obj) then format_opt (s3_sse_kms_key_id obj)
                      else ''None''),
                   log_new_sse_type = new_sse_type_for (info_dual_layer_encryption info),
                   log_new_kms_key_arn = info_kms_key_arn info,
                   log_action_taken = ''Initiated copy with the right key'',
                   log_action_reason =
                     action_reason_for cur (s3_sse_kms_key_id obj)
                       (new_sse_type_for (info_dual_layer_encryption info))
                       (info_kms_key_arn info),
                   log_new_version_id = Some (s3_new_version_id w (s3_objects w (b, k)))\<rparr>
                  (ddb_log_table w))"
proof -
  let ?ns = "new_sse_type_for (info_dual_layer_encryption info)"
  let ?nk = "info_kms_key_arn info"
  let ?nv = "s3_new_version_id w (s3_objects w (b, k))"
  have t: "(if truthy version_id then version_id else None) = Some i"
    using v by (simp add: truthy_def)
  have g: "get_object w b k (if truthy version_id then version_id else None) = Inr obj"
    using obj by (simp add: t get_object_def)
  have c: "copy_object w b k i ?nk ?ns = (Inr (Some ?nv), snd (store_copy w b k obj ?nk ?ns))"
    using obj ver small by (simp add: copy_object_def store_copy_def Let_def)
  have i_in: "i \<in> s3_version_id ` set (s3_objects w (b, k))"
    using obj by (auto simp: find_Some_iff)
  with fresh have ne: "?nv \<noteq> i" by auto
  have s: "s3_objects (snd (store_copy w b k obj ?nk ?ns))
             = (s3_objects w)((b, k) :=
                 \<lparr>s3_version_id = ?nv, s3_content = s3_content obj, s3_sse = Some ?ns,
                  s3_sse_kms_key_id = Some ?nk\<rparr> # s3_objects w (b, k))"
    using ver by (simp add: store_copy_def Let_def)
  have tn: "truthy (Some ?nv)" using nonempty by (simp add: truthy_def)
  from fix_mismatch_versioned[OF g cur pol mis t] c
  have eq: "fix_encryption_if_incorrect b k version_id w
     = (Inr (),
        log_action_into_ddb (s3_object_path_of b k (Some i))
          cur (s3_sse_kms_key_id obj) ''N/A'' ''N/A''
          ''Deleted old version with incorrect encryption'' ''N/A'' None
          (delete_object
             (log_action_into_ddb (s3_object_path_of b k (Some i))
                cur (s3_sse_kms_key_id obj) ?ns ?nk ''Initiated copy with the right key''
                (action_reason_for cur (s3_sse_kms_key_id obj) ?ns ?nk)
                (Some ?nv) (snd (store_copy w b k obj ?nk ?ns)))
             b k i))"
    by simp
  have 1: "fst (fix_encryption_if_incorrect b k version_id w) = Inr ()"
    by (simp add: eq)
  have 2: "s3_objects (snd (fix_encryption_if_incorrect b k version_id w))
           = (s3_objects w)((b, k) :=
                \<lparr>s3_version_id = ?nv, s3_content = s3_content obj, s3_sse = Some ?ns,
                 s3_sse_kms_key_id = Some ?nk\<rparr>
                # filter (\<lambda>v. s3_version_id v \<noteq> i) (s3_objects w (b, k)))"
    using ne by (simp add: eq delete_object_def s)
  have 3: "ddb_log_table (snd (fix_encryption_if_incorrect b k version_id w))
           = put_item (''s3://'' @ b @ ''/'' @ k @ ''?versionId='' @ i, clock w (Suc (ticks w)))
               \<lparr>log_s3_object_path = ''s3://'' @ b @ ''/'' @ k @ ''?versionId='' @ i,
                log_current_timestamp_utc = clock w (Suc (ticks w)),
                log_current_sse_type = cur,
                log_current_kms_key_arn =
                  (if truthy (s3_sse_kms_key_id obj) then format_opt (s3_sse_kms_key_id obj)
                   else ''None''),
                log_new_sse_type = ''N/A'',
                log_new_kms_key_arn = ''N/A'',
                log_action_taken = ''Deleted old version with incorrect encryption'',
                log_action_reason = ''N/A'',
                log_new_version_id = None\<rparr>
               (put_item (''s3://'' @ b @ ''/'' @ k @ ''?versionId='' @ i, clock w (ticks w))
                  \<lparr>log_s3_object_path = ''s3://'' @ b @ ''/'' @ k @ ''?versionId='' @ i,
                   log_current_timestamp_utc = clock w (ticks w),
                   log_current_sse_type = cur,
                   log_current_kms_key_arn =
                     (if truthy (s3_sse_kms_key_id obj) then format_opt (s3_sse_kms_key_id obj)
                      else ''None''),
                   log_new_sse_type = ?ns,
                   log_new_kms_key_arn = ?nk,
                   log_action_taken = ''Initiated copy with the right key'',
                   log_action_reason = action_reason_for cur (s3_sse_kms_key_id obj) ?ns ?nk,
                   log_new_version_id = Some ?nv\<rparr>
                  (ddb_log_table w))"
    using tn by (simp add: eq log_action_table s3_object_path_of_def truthy_def)
  from 1 2 3 show ?thesis by blast
qed


lemma versioned_too_large:
  assumes v: "version_id = Some i" "i \<noteq> []"
    and obj: "find (\<lambda>v. s3_version_id v = i) (s3_objects w (b, k)) = Some obj"
    and cur: "s3_sse obj = Some cur"
    and pol: "get_kms_key_info_for_s3_prefix (ddb_mapping_table w) b k = Some info"
    and mis: "\<not> (cur = new_sse_type_for (info_dual_layer_encryption info)
                \<and> s3_sse_kms_key_id obj = Some (info_kms_key_arn info))"
    and large: "copy_object_limit < length (s3_content obj)"
  shows "fix_encryption_if_incorrect b k version_id w = (Inl InvalidRequest, w)"
proof -
  have t: "(if truthy version_id then version_id else None) = Some i"
    using v by (simp add: truthy_def)
  have g: "get_object w b k (if truthy version_id then version_id else None) = Inr obj"
    using obj by (simp add: t get_object_def)
  have c: "copy_object w b k i (info_kms_key_arn info)
             (new_sse_type_for (info_dual_layer_encryption info)) = (Inl InvalidRequest, w)"
    using obj large by (simp add: copy_object_def)
  from fix_mismatch_versioned[OF g cur pol mis t] c show ?thesis by simp
qed

lemma versioned_world_run:
  "fst (fix_encryption_if_incorrect ''vb'' ''a/k'' (Some ''v1'') versioned_world) = Inr ()"
  "s3_objects (snd (fix_encryption_if_incorrect ''vb'' ''a/k'' (Some ''v1'') versioned_world))
      (''vb'', ''a/k'')
     = [\<lparr>s3_version_id = ''v2'', s3_content = ''data3'',
         s3_sse = Some ''aws:kms'', s3_sse_kms_key_id = Some ''k1''\<rparr>]"
  "map (log_s3_object_path \<circ> snd)
     (ddb_log_table (snd (fix_encryption_if_incorrect ''vb'' ''a/k'' (Some ''v1'') versioned_world)))
     = [''s3://vb/a/k?versionId=v1'', ''s3://vb/a/k?versionId=v1'']"
  "map (log_action_taken \<circ> snd)
     (ddb_log_table (snd (fix_encryption_if_incorrect ''vb'' ''a/k'' (Some ''v1'') versioned_world)))
     = [''Initiated copy with the right key'', ''Deleted old version with incorrect encryption'']"
  "map (log_new_version_id \<circ> snd)
     (ddb_log_table (snd (fix_encryption_if_incorrect ''vb'' ''a/k'' (Some ''v1'') versioned_world)))
     = [Some ''v2'', None]"
proof -
  let ?w = versioned_world
  let ?obj = "\<lparr>s3_version_id = ''v1'', s3_content = ''data3'',
               s3_sse = Some ''aws:kms'', s3_sse_kms_key_id = Some ''k0''\<rparr>"
  let ?info = "\<lparr>info_kms_key_arn = ''k1'', info_dual_layer_encryption = False\<rparr>"
  have objs: "s3_objects ?w (''vb'', ''a/k'') = [?obj]"
    by (simp add: versioned_world_def demo_world_def)
  have ver: "s3_versioning ?w ''vb''" by (simp add: versioned_world_def demo_world_def)
  have obj: "find (\<lambda>v. s3_version_id v = ''v1'') (s3_objects ?w (''vb'', ''a/k'')) = Some ?obj"
    by (simp add: objs)
  have cur: "s3_sse ?obj = Some ''aws:kms''" by simp
  have pol: "get_kms_key_info_for_s3_prefix (ddb_mapping_table ?w) ''vb'' ''a/k'' = Some ?info"
    using demo_policy_vk by (simp add: versioned_world_def)
  have mis: "\<not> (''aws:kms'' = new_sse_type_for (info_dual_layer_encryption ?info)
                \<and> s3_sse_kms_key_id ?obj = Some (info_kms_key_arn ?info))"
    by simp
  have nv: "s3_new_version_id ?w vs = ''v2''" for vs
    by (simp add: versioned_world_def demo_world_def)
  have fresh: "s3_new_version_id ?w (s3_objects ?w (''vb'', ''a/k''))
                  \<notin> s3_version_id ` set (s3_objects ?w (''vb'', ''a/k''))"
    unfolding nv by (simp add: objs)
  have nonempty: "s3_new_version_id ?w (s3_objects ?w (''vb'', ''a/k'')) \<noteq> []"
    unfolding nv by simp
  have small: "length (s3_content ?obj) \<le> copy_object_limit"
    by (simp add: copy_object_limit_def)
  have v: "Some ''v1'' = Some ''v1''" "''v1'' \<noteq> []" by simp_all
  have env: "clock ?w (ticks ?w) = ''T''" "clock ?w (Suc (ticks ?w)) = ''Ti''"
    "ddb_log_table ?w = []"
    by (simp_all add: versioned_world_def demo_world_def demo_clock_def)
  note eff = versioned_rewrite_effect[OF v ver obj cur pol mis fresh nonempty small]
  from eff show "fst (fix_encryption_if_incorrect ''vb'' ''a/k'' (Some ''v1'') ?w) = Inr ()"
    by blast
  from eff have b: "s3_objects (snd (fix_encryption_if_incorrect ''vb'' ''a/k'' (Some ''v1'') ?w))
           = (s3_objects ?w)((''vb'', ''a/k'') :=
                \<lparr>s3_version_id = s3_new_version_id ?w (s3_objects ?w (''vb'', ''a/k'')),
                 s3_content = s3_content ?obj,
                 s3_sse = Some (new_sse_type_for (info_dual_layer_encryption ?info)),
                 s3_sse_kms_key_id = Some (info_kms_key_arn ?info)\<rparr>
                # filter (\<lambda>v. s3_version_id v \<noteq> ''v1'') (s3_objects ?w (''vb'', ''a/k'')))"
    by blast
  show "s3_objects (snd (fix_encryption_if_incorrect ''vb'' ''a/k'' (Some ''v1'') ?w))
      (''vb'', ''a/k'')
     = [\<lparr>s3_version_id = ''v2'', s3_content = ''data3'',
         s3_sse = Some ''aws:kms'', s3_sse_kms_key_id = Some ''k1''\<rparr>]"
    unfolding b by (simp add: nv objs new_sse_type_for_def)
  from eff have l: "\<exists>e1 e2. ddb_log_table (snd (fix_encryption_if_incorrect ''vb'' ''a/k'' (Some ''v1'') ?w))
      = [((''s3://vb/a/k?versionId=v1'', ''T''), e1), ((''s3://vb/a/k?versionId=v1'', ''Ti''), e2)]
      \<and> log_s3_object_path e1 = ''s3://vb/a/k?versionId=v1''
      \<and> log_s3_object_path e2 = ''s3://vb/a/k?versionId=v1''
      \<and> log_action_taken e1 = ''Initiated copy with the right key''
      \<and> log_action_taken e2 = ''Deleted old version with incorrect encryption''
      \<and> log_new_version_id e1 = Some ''v2'' \<and> log_new_version_id e2 = None"
    unfolding env nv by (simp add: put_item_def)
  from l show "map (log_s3_object_path \<circ> snd)
     (ddb_log_table (snd (fix_encryption_if_incorrect ''vb'' ''a/k'' (Some ''v1'') ?w)))
     = [''s3://vb/a/k?versionId=v1'', ''s3://vb/a/k?versionId=v1'']"
    by auto
  from l show "map (log_action_taken \<circ> snd)
     (ddb_log_table (snd (fix_encryption_if_incorrect ''vb'' ''a/k'' (Some ''v1'') ?w)))
     = [''Initiated copy with the right key'', ''Deleted old version with incorrect encryption'']"
    by auto
  from l show "map (log_new_version_id \<circ> snd)
     (ddb_log_table (snd (fix_encryption_if_incorrect ''vb'' ''a/k'' (Some ''v1'') ?w)))
     = [Some ''v2'', None]"
    by auto
qed

subsection \<open>Running again\<close>

text \<open>
  On an object that has the encryption its policy asks for, any number of runs each
  return normally, change nothing but the count of clock readings and the log table, and
  put an item with action \<open>None\<close> and reason \<open>Already using the correct key\<close>.
\<close>

lemma noop_repeats:
  assumes obj: "get_object w b k (if truthy version_id then version_id else None) = Inr obj"
    and pol: "get_kms_key_info_for_s3_prefix (ddb_mapping_table w) b k = Some info"
    and sse: "s3_sse obj = Some (new_sse_type_for (info_dual_layer_encryption info))"
    and key: "s3_sse_kms_key_id obj = Some (info_kms_key_arn info)"
  shows "\<exists>log. ((\<lambda>x. snd (fix_encryption_if_incorrect b k version_id x)) ^^ n) w
                 = w\<lparr>ticks := ticks w + n, ddb_log_table := log\<rparr>
          \<and> (n = 0 \<longrightarrow> log = ddb_log_table w)
          \<and> fix_encryption_if_incorrect b k version_id
               (((\<lambda>x. snd (fix_encryption_if_incorrect b k version_id x)) ^^ n) w)
             = (Inr (),
                w\<lparr>ticks := Suc (ticks w + n),
                  ddb_log_table :=
                    put_item (s3_object_path_of b k (if truthy version_id then version_id else None),
                              clock w (ticks w + n))
                      \<lparr>log_s3_object_path =
                         s3_object_path_of b k (if truthy version_id then version_id else None),
                       log_current_timestamp_utc = clock w (ticks w + n),
                       log_current_sse_type = new_sse_type_for (info_dual_layer_encryption info),
                       log_current_kms_key_arn =
                         (if info_kms_key_arn info = [] then ''None'' else info_kms_key_arn info),
                       log_new_sse_type = new_sse_type_for (info_dual_layer_encryption info),
                       log_new_kms_key_arn = info_kms_key_arn info,
                       log_action_taken = ''None'',
                       log_action_reason = ''Already using the correct key'',
                       log_new_version_id = None\<rparr>
                      log\<rparr>)"
proof (induction n)
  case 0
  from fix_compliant[OF obj pol sse key] show ?case
    by (intro exI[of _ "ddb_log_table w"])
       (simp add: log_action_into_ddb_def now_utc_def truthy_def format_opt_def)
next
  case (Suc n)
  let ?f = "\<lambda>x. snd (fix_encryption_if_incorrect b k version_id x)"
  from Suc obtain lg where
    lg: "(?f ^^ n) w = w\<lparr>ticks := ticks w + n, ddb_log_table := lg\<rparr>"
    and run: "fix_encryption_if_incorrect b k version_id ((?f ^^ n) w)
             = (Inr (),
                w\<lparr>ticks := Suc (ticks w + n),
                  ddb_log_table :=
                    put_item (s3_object_path_of b k (if truthy version_id then version_id else None),
                              clock w (ticks w + n))
                      \<lparr>log_s3_object_path =
                         s3_object_path_of b k (if truthy version_id then version_id else None),
                       log_current_timestamp_utc = clock w (ticks w + n),
                       log_current_sse_type = new_sse_type_for (info_dual_layer_encryption info),
                       log_current_kms_key_arn =
                         (if info_kms_key_arn info = [] then ''None'' else info_kms_key_arn info),
                       log_new_sse_type = new_sse_type_for (info_dual_layer_encryption info),
                       log_new_kms_key_arn = info_kms_key_arn info,
                       log_action_taken = ''None'',
                       log_action_reason = ''Already using the correct key'',
                       log_new_version_id = None\<rparr>
                      lg\<rparr>)"
    by blast
  let ?lg' = "put_item (s3_object_path_of b k (if truthy version_id then version_id else None),
                              clock w (ticks w + n))
                      \<lparr>log_s3_object_path =
                         s3_object_path_of b k (if truthy version_id then version_id else None),
                       log_current_timestamp_utc = clock w (ticks w + n),
                       log_current_sse_type = new_sse_type_for (info_dual_layer_encryption info),
                       log_current_kms_key_arn =
                         (if info_kms_key_arn info = [] then ''None'' else info_kms_key_arn info),
                       log_new_sse_type = new_sse_type_for (info_dual_layer_encryption info),
                       log_new_kms_key_arn = info_kms_key_arn info,
                       log_action_taken = ''None'',
                       log_action_reason = ''Already using the correct key'',
                       log_new_version_id = None\<rparr>
                      lg"
  let ?w' = "w\<lparr>ticks := ticks w + Suc n, ddb_log_table := ?lg'\<rparr>"
  have step: "(?f ^^ Suc n) w = ?w'"
    using run by simp
  have obj': "get_object ?w' b k (if truthy version_id then version_id else None) = Inr obj"
    using obj get_object_cong[of ?w' w] by simp
  have pol': "get_kms_key_info_for_s3_prefix (ddb_mapping_table ?w') b k = Some info"
    using pol by simp
  from fix_compliant[OF obj' pol' sse key] step show ?case
    by (intro exI[of _ ?lg'])
       (simp add: log_action_into_ddb_def now_utc_def truthy_def format_opt_def)
qed


lemma store_copy_head:
  "\<exists>new rest. s3_objects (snd (store_copy w b k src nk ns)) (b, k) = new # rest
      \<and> s3_content new = s3_content src \<and> s3_sse new = Some ns
      \<and> s3_sse_kms_key_id new = Some nk"
  by (simp add: store_copy_def Let_def)

text \<open>
  Claim C9, for objects that are compliant and for events without a version. A run on an
  object that has the encryption of its policy is of the kind above. A run on an event
  without a version whose object has another encryption copies the object, and the
  object it leaves has the content of the first and the encryption of the policy. In
  both cases every later run on the same event returns normally, changes nothing but the
  count of clock readings and the log table, and puts an item with action \<open>None\<close> and
  reason \<open>Already using the correct key\<close>.
\<close>

theorem remediation_idempotent:
  assumes obj: "get_object w b k (if truthy version_id then version_id else None) = Inr obj"
    and cur: "s3_sse obj = Some cur"
    and pol: "get_kms_key_info_for_s3_prefix (ddb_mapping_table w) b k = Some info"
    and kind: "(cur = new_sse_type_for (info_dual_layer_encryption info)
                 \<and> s3_sse_kms_key_id obj = Some (info_kms_key_arn info))
               \<or> \<not> truthy version_id"
    and w1: "w1 = snd (fix_encryption_if_incorrect b k version_id w)"
  shows "fst (fix_encryption_if_incorrect b k version_id w) = Inr ()
       \<and> (cur = new_sse_type_for (info_dual_layer_encryption info)
            \<and> s3_sse_kms_key_id obj = Some (info_kms_key_arn info)
          \<longrightarrow> w1 = w\<lparr>ticks := Suc (ticks w),
                     ddb_log_table :=
                       put_item (s3_object_path_of b k
                                   (if truthy version_id then version_id else None),
                                 clock w (ticks w))
                         \<lparr>log_s3_object_path =
                            s3_object_path_of b k
                              (if truthy version_id then version_id else None),
                          log_current_timestamp_utc = clock w (ticks w),
                          log_current_sse_type =
                            new_sse_type_for (info_dual_layer_encryption info),
                          log_current_kms_key_arn =
                            (if info_kms_key_arn info = [] then ''None''
                             else info_kms_key_arn info),
                          log_new_sse_type = new_sse_type_for (info_dual_layer_encryption info),
                          log_new_kms_key_arn = info_kms_key_arn info,
                          log_action_taken = ''None'',
                          log_action_reason = ''Already using the correct key'',
                          log_new_version_id = None\<rparr>
                         (ddb_log_table w)\<rparr>)
       \<and> (\<exists>obj1. get_object w1 b k (if truthy version_id then version_id else None) = Inr obj1
            \<and> s3_content obj1 = s3_content obj
            \<and> s3_sse obj1 = Some (new_sse_type_for (info_dual_layer_encryption info))
            \<and> s3_sse_kms_key_id obj1 = Some (info_kms_key_arn info))
       \<and> (\<exists>log. ((\<lambda>x. snd (fix_encryption_if_incorrect b k version_id x)) ^^ n) w1
                   = w1\<lparr>ticks := ticks w1 + n, ddb_log_table := log\<rparr>
            \<and> (n = 0 \<longrightarrow> log = ddb_log_table w1)
            \<and> fix_encryption_if_incorrect b k version_id
                 (((\<lambda>x. snd (fix_encryption_if_incorrect b k version_id x)) ^^ n) w1)
               = (Inr (),
                  w1\<lparr>ticks := Suc (ticks w1 + n),
                     ddb_log_table :=
                       put_item (s3_object_path_of b k
                                   (if truthy version_id then version_id else None),
                                 clock w1 (ticks w1 + n))
                         \<lparr>log_s3_object_path =
                            s3_object_path_of b k
                              (if truthy version_id then version_id else None),
                          log_current_timestamp_utc = clock w1 (ticks w1 + n),
                          log_current_sse_type =
                            new_sse_type_for (info_dual_layer_encryption info),
                          log_current_kms_key_arn =
                            (if info_kms_key_arn info = [] then ''None''
                             else info_kms_key_arn info),
                          log_new_sse_type = new_sse_type_for (info_dual_layer_encryption info),
                          log_new_kms_key_arn = info_kms_key_arn info,
                          log_action_taken = ''None'',
                          log_action_reason = ''Already using the correct key'',
                          log_new_version_id = None\<rparr>
                         log\<rparr>))"
proof -
  let ?vid = "if truthy version_id then version_id else None"
  let ?ns = "new_sse_type_for (info_dual_layer_encryption info)"
  let ?nk = "info_kms_key_arn info"
  let ?compliant = "cur = ?ns \<and> s3_sse_kms_key_id obj = Some ?nk"
  have main: "fst (fix_encryption_if_incorrect b k version_id w) = Inr ()
      \<and> ddb_mapping_table w1 = ddb_mapping_table w
      \<and> (\<exists>obj1. get_object w1 b k ?vid = Inr obj1
            \<and> s3_content obj1 = s3_content obj
            \<and> s3_sse obj1 = Some ?ns \<and> s3_sse_kms_key_id obj1 = Some ?nk)"
  proof (cases ?compliant)
    case True
    with cur have sse: "s3_sse obj = Some ?ns" and key: "s3_sse_kms_key_id obj = Some ?nk"
      by simp_all
    from fix_compliant[OF obj pol sse key] w1
    have e: "fst (fix_encryption_if_incorrect b k version_id w) = Inr ()"
      "s3_objects w1 = s3_objects w" "ddb_mapping_table w1 = ddb_mapping_table w"
      by simp_all
    from e(2) obj have "get_object w1 b k ?vid = Inr obj"
      by (simp add: get_object_cong[of w1 w])
    with e sse key show ?thesis by blast
  next
    case False
    with kind have nv: "?vid = None" by simp
    with obj obtain rest where objs: "s3_objects w (b, k) = obj # rest"
      by (cases "s3_objects w (b, k)") (simp_all add: get_object_def)
    then have c: "copy w b k ?nk ?ns = (Inr (), snd (store_copy w b k obj ?nk ?ns))"
      by (simp add: copy_def)
    from fix_mismatch_unversioned[OF obj cur pol False nv] c w1
    have e: "fst (fix_encryption_if_incorrect b k version_id w) = Inr ()"
      "s3_objects w1 = s3_objects (snd (store_copy w b k obj ?nk ?ns))"
      "ddb_mapping_table w1 = ddb_mapping_table w"
      by simp_all
    from store_copy_head[of w b k obj ?nk ?ns] obtain new rest' where
      n: "s3_objects (snd (store_copy w b k obj ?nk ?ns)) (b, k) = new # rest'"
      "s3_content new = s3_content obj" "s3_sse new = Some ?ns" "s3_sse_kms_key_id new = Some ?nk"
      by blast
    from n(1) e(2) nv have "get_object w1 b k ?vid = Inr new"
      by (simp add: get_object_def)
    with e n show ?thesis by blast
  qed
  then obtain obj1 where o1: "get_object w1 b k ?vid = Inr obj1"
      "s3_content obj1 = s3_content obj" "s3_sse obj1 = Some ?ns"
      "s3_sse_kms_key_id obj1 = Some ?nk"
    and m1: "ddb_mapping_table w1 = ddb_mapping_table w"
    and r0: "fst (fix_encryption_if_incorrect b k version_id w) = Inr ()"
    by blast
  from pol m1 have pol1: "get_kms_key_info_for_s3_prefix (ddb_mapping_table w1) b k = Some info"
    by simp
  note rep = noop_repeats[OF o1(1) pol1 o1(3) o1(4), of n]
  have first: "?compliant \<longrightarrow> w1 = w\<lparr>ticks := Suc (ticks w),
                     ddb_log_table :=
                       put_item (s3_object_path_of b k ?vid, clock w (ticks w))
                         \<lparr>log_s3_object_path = s3_object_path_of b k ?vid,
                          log_current_timestamp_utc = clock w (ticks w),
                          log_current_sse_type = ?ns,
                          log_current_kms_key_arn = (if ?nk = [] then ''None'' else ?nk),
                          log_new_sse_type = ?ns,
                          log_new_kms_key_arn = ?nk,
                          log_action_taken = ''None'',
                          log_action_reason = ''Already using the correct key'',
                          log_new_version_id = None\<rparr>
                         (ddb_log_table w)\<rparr>"
  proof
    assume c: ?compliant
    with cur have sse: "s3_sse obj = Some ?ns" and key: "s3_sse_kms_key_id obj = Some ?nk"
      by simp_all
    from noop_repeats[OF obj pol sse key, of 0] w1 show "w1 = w\<lparr>ticks := Suc (ticks w),
                     ddb_log_table :=
                       put_item (s3_object_path_of b k ?vid, clock w (ticks w))
                         \<lparr>log_s3_object_path = s3_object_path_of b k ?vid,
                          log_current_timestamp_utc = clock w (ticks w),
                          log_current_sse_type = ?ns,
                          log_current_kms_key_arn = (if ?nk = [] then ''None'' else ?nk),
                          log_new_sse_type = ?ns,
                          log_new_kms_key_arn = ?nk,
                          log_action_taken = ''None'',
                          log_action_reason = ''Already using the correct key'',
                          log_new_version_id = None\<rparr>
                         (ddb_log_table w)\<rparr>"
      by auto
  qed
  from r0 first o1 rep show ?thesis by blast
qed

text \<open>
  The claim C9 as stated also covers the second run on an event with a version after a
  run that repaired it. That run deleted the version of the event, so the second run
  raises \<open>NoSuchVersion\<close> at \<open>get_object\<close> and writes no log item.
\<close>

theorem remediation_rerun_versioned_raises:
  "fst (fix_encryption_if_incorrect ''vb'' ''a/k'' (Some ''v1'') versioned_world) = Inr ()
   \<and> fix_encryption_if_incorrect ''vb'' ''a/k'' (Some ''v1'')
        (snd (fix_encryption_if_incorrect ''vb'' ''a/k'' (Some ''v1'') versioned_world))
       = (Inl NoSuchVersion,
          snd (fix_encryption_if_incorrect ''vb'' ''a/k'' (Some ''v1'') versioned_world))"
proof -
  have "fst (fix_encryption_if_incorrect ''vb'' ''a/k'' (Some ''v1'') versioned_world) = Inr ()"
    and o: "s3_objects (snd (fix_encryption_if_incorrect ''vb'' ''a/k'' (Some ''v1'')
                               versioned_world)) (''vb'', ''a/k'')
              = [\<lparr>s3_version_id = ''v2'', s3_content = ''data3'',
                  s3_sse = Some ''aws:kms'', s3_sse_kms_key_id = Some ''k1''\<rparr>]"
    using versioned_world_run by simp_all
  moreover from o have "get_object
       (snd (fix_encryption_if_incorrect ''vb'' ''a/k'' (Some ''v1'') versioned_world))
       ''vb'' ''a/k'' (if truthy (Some ''v1'') then Some ''v1'' else None) = Inl NoSuchVersion"
    by (simp add: get_object_def truthy_def)
  ultimately show ?thesis by (simp add: fix_get_fails)
qed

theorem remediation_idempotent_witness:
  "get_object demo_world ''b'' ''a/x'' None
     = Inr \<lparr>s3_version_id = ''null'', s3_content = ''data1'',
             s3_sse = Some ''aws:kms'', s3_sse_kms_key_id = Some ''k1''\<rparr>
   \<and> fst (fix_encryption_if_incorrect ''b'' ''a/x'' None demo_world) = Inr ()
   \<and> s3_objects (snd (fix_encryption_if_incorrect ''b'' ''a/x'' None demo_world))
       = s3_objects demo_world
   \<and> fst (fix_encryption_if_incorrect ''b'' ''a/x'' None
            (snd (fix_encryption_if_incorrect ''b'' ''a/x'' None demo_world))) = Inr ()
   \<and> s3_objects (snd (fix_encryption_if_incorrect ''b'' ''a/x'' None
            (snd (fix_encryption_if_incorrect ''b'' ''a/x'' None demo_world))))
       = s3_objects demo_world
   \<and> get_object repair_world ''b'' ''a/b/f'' None
     = Inr \<lparr>s3_version_id = ''null'', s3_content = ''data4'',
             s3_sse = Some ''AES256'', s3_sse_kms_key_id = None\<rparr>
   \<and> \<not> truthy None
   \<and> fst (fix_encryption_if_incorrect ''b'' ''a/b/f'' None repair_world) = Inr ()
   \<and> (\<exists>obj1. get_object (snd (fix_encryption_if_incorrect ''b'' ''a/b/f'' None repair_world))
                  ''b'' ''a/b/f'' None = Inr obj1
          \<and> s3_content obj1 = ''data4'' \<and> s3_sse obj1 = Some ''aws:kms''
          \<and> s3_sse_kms_key_id obj1 = Some ''k2'')
   \<and> fst (fix_encryption_if_incorrect ''b'' ''a/b/f'' None
            (snd (fix_encryption_if_incorrect ''b'' ''a/b/f'' None repair_world))) = Inr ()
   \<and> s3_objects (snd (fix_encryption_if_incorrect ''b'' ''a/b/f'' None
            (snd (fix_encryption_if_incorrect ''b'' ''a/b/f'' None repair_world))))
       = s3_objects (snd (fix_encryption_if_incorrect ''b'' ''a/b/f'' None repair_world))"
proof -
  let ?objx = "\<lparr>s3_version_id = ''null'', s3_content = ''data1'',
             s3_sse = Some ''aws:kms'', s3_sse_kms_key_id = Some ''k1''\<rparr>"
  let ?infox = "\<lparr>info_kms_key_arn = ''k1'', info_dual_layer_encryption = False\<rparr>"
  let ?x1 = "snd (fix_encryption_if_incorrect ''b'' ''a/x'' None demo_world)"
  have objx: "get_object demo_world ''b'' ''a/x'' (if truthy None then None else None)
                = Inr ?objx"
    by (simp add: get_object_def demo_world_def)
  have curx: "s3_sse ?objx = Some ''aws:kms''" by simp
  have kindx: "(''aws:kms'' = new_sse_type_for (info_dual_layer_encryption ?infox)
                 \<and> s3_sse_kms_key_id ?objx = Some (info_kms_key_arn ?infox))
               \<or> \<not> truthy None"
    by (simp add: new_sse_type_for_def)
  have compx: "''aws:kms'' = new_sse_type_for (info_dual_layer_encryption ?infox)
                 \<and> s3_sse_kms_key_id ?objx = Some (info_kms_key_arn ?infox)"
    by (simp add: new_sse_type_for_def)
  note runx = remediation_idempotent[OF objx curx demo_policy_x kindx refl, of 0]
  from runx have x0: "fst (fix_encryption_if_incorrect ''b'' ''a/x'' None demo_world) = Inr ()"
    by blast
  from runx compx have "\<exists>t l. ?x1 = demo_world\<lparr>ticks := t, ddb_log_table := l\<rparr>"
    by blast
  then obtain t l where "?x1 = demo_world\<lparr>ticks := t, ddb_log_table := l\<rparr>" by blast
  then have x1: "s3_objects ?x1 = s3_objects demo_world" by simp
  from runx have x2: "fst (fix_encryption_if_incorrect ''b'' ''a/x'' None ?x1) = Inr ()
         \<and> s3_objects (snd (fix_encryption_if_incorrect ''b'' ''a/x'' None ?x1))
             = s3_objects ?x1"
    by auto
  let ?obj = "\<lparr>s3_version_id = ''null'', s3_content = ''data4'',
             s3_sse = Some ''AES256'', s3_sse_kms_key_id = None\<rparr>"
  let ?info = "\<lparr>info_kms_key_arn = ''k2'', info_dual_layer_encryption = False\<rparr>"
  let ?w1 = "snd (fix_encryption_if_incorrect ''b'' ''a/b/f'' None repair_world)"
  have obj: "get_object repair_world ''b'' ''a/b/f'' (if truthy None then None else None)
               = Inr ?obj"
    by (simp add: get_object_def repair_world_def)
  have cur: "s3_sse ?obj = Some ''AES256''" by simp
  have pol: "get_kms_key_info_for_s3_prefix (ddb_mapping_table repair_world) ''b'' ''a/b/f''
               = Some ?info"
    by (simp add: get_kms_key_info_for_s3_prefix_def query_prefix_le_def candidates_desc_def
          ddb_page_limit_def mapping_item_size_def repair_world_def demo_world_def
          demo_table_def demo_item_def startswith_def)
  have kind: "(''AES256'' = new_sse_type_for (info_dual_layer_encryption ?info)
                 \<and> s3_sse_kms_key_id ?obj = Some (info_kms_key_arn ?info))
               \<or> \<not> truthy None"
    by (simp add: truthy_def)
  note run = remediation_idempotent[OF obj cur pol kind refl, of 0]
  from run have r0: "fst (fix_encryption_if_incorrect ''b'' ''a/b/f'' None repair_world) = Inr ()"
    by blast
  from run have r1: "\<exists>obj1. get_object ?w1 ''b'' ''a/b/f'' None = Inr obj1
          \<and> s3_content obj1 = ''data4'' \<and> s3_sse obj1 = Some ''aws:kms''
          \<and> s3_sse_kms_key_id obj1 = Some ''k2''"
    by (simp add: truthy_def new_sse_type_for_def)
  from run have r2: "fst (fix_encryption_if_incorrect ''b'' ''a/b/f'' None ?w1) = Inr ()
         \<and> s3_objects (snd (fix_encryption_if_incorrect ''b'' ''a/b/f'' None ?w1))
             = s3_objects ?w1"
    by auto
  have nt: "\<not> truthy None" by (simp add: truthy_def)
  from objx obj have g: "get_object demo_world ''b'' ''a/x'' None = Inr ?objx"
    "get_object repair_world ''b'' ''a/b/f'' None = Inr ?obj"
    by (simp_all add: truthy_def)
  from g x0 x1 x2 nt r0 r1 r2 show ?thesis by simp
qed

subsection \<open>Claim C3\<close>

text \<open>
  Claim C3, as amended. For a version of an object in a bucket with versioning whose
  encryption differs from the resolved policy, whose content is within the size that
  \<open>copy_object\<close> accepts, and a new version identifier that is not empty and not the
  identifier of a version of the object, the remediation returns normally. The versions
  of the object are then the new version, with the content of the original and the
  desired encryption, followed by the former versions without the original one. Two
  items are put into the log table, first the copy with the new version identifier, then
  the deletion; both carry the same \<open>s3_object_path\<close>, the one of the original version.
  When the two readings of the clock differ, both items are in the log table afterwards,
  each under its own timestamp.
\<close>

theorem remediation_versioned:
  assumes v: "version_id = Some i" "i \<noteq> []"
    and ver: "s3_versioning w b"
    and obj: "find (\<lambda>v. s3_version_id v = i) (s3_objects w (b, k)) = Some obj"
    and cur: "s3_sse obj = Some cur"
    and pol: "get_kms_key_info_for_s3_prefix (ddb_mapping_table w) b k = Some info"
    and mis: "\<not> (cur = new_sse_type_for (info_dual_layer_encryption info)
                \<and> s3_sse_kms_key_id obj = Some (info_kms_key_arn info))"
    and fresh: "s3_new_version_id w (s3_objects w (b, k))
                  \<notin> s3_version_id ` set (s3_objects w (b, k))"
    and nonempty: "s3_new_version_id w (s3_objects w (b, k)) \<noteq> []"
    and small: "length (s3_content obj) \<le> copy_object_limit"
  shows "fst (fix_encryption_if_incorrect b k version_id w) = Inr ()
       \<and> s3_objects (snd (fix_encryption_if_incorrect b k version_id w))
           = (s3_objects w)((b, k) :=
                \<lparr>s3_version_id = s3_new_version_id w (s3_objects w (b, k)),
                 s3_content = s3_content obj,
                 s3_sse = Some (new_sse_type_for (info_dual_layer_encryption info)),
                 s3_sse_kms_key_id = Some (info_kms_key_arn info)\<rparr>
                # filter (\<lambda>v. s3_version_id v \<noteq> i) (s3_objects w (b, k)))
       \<and> ddb_log_table (snd (fix_encryption_if_incorrect b k version_id w))
           = put_item (''s3://'' @ b @ ''/'' @ k @ ''?versionId='' @ i, clock w (Suc (ticks w)))
               \<lparr>log_s3_object_path = ''s3://'' @ b @ ''/'' @ k @ ''?versionId='' @ i,
                log_current_timestamp_utc = clock w (Suc (ticks w)),
                log_current_sse_type = cur,
                log_current_kms_key_arn =
                  (if truthy (s3_sse_kms_key_id obj) then format_opt (s3_sse_kms_key_id obj)
                   else ''None''),
                log_new_sse_type = ''N/A'',
                log_new_kms_key_arn = ''N/A'',
                log_action_taken = ''Deleted old version with incorrect encryption'',
                log_action_reason = ''N/A'',
                log_new_version_id = None\<rparr>
               (put_item (''s3://'' @ b @ ''/'' @ k @ ''?versionId='' @ i, clock w (ticks w))
                  \<lparr>log_s3_object_path = ''s3://'' @ b @ ''/'' @ k @ ''?versionId='' @ i,
                   log_current_timestamp_utc = clock w (ticks w),
                   log_current_sse_type = cur,
                   log_current_kms_key_arn =
                     (if truthy (s3_sse_kms_key_id obj) then format_opt (s3_sse_kms_key_id obj)
                      else ''None''),
                   log_new_sse_type = new_sse_type_for (info_dual_layer_encryption info),
                   log_new_kms_key_arn = info_kms_key_arn info,
                   log_action_taken = ''Initiated copy with the right key'',
                   log_action_reason =
                     action_reason_for cur (s3_sse_kms_key_id obj)
                       (new_sse_type_for (info_dual_layer_encryption info))
                       (info_kms_key_arn info),
                   log_new_version_id = Some (s3_new_version_id w (s3_objects w (b, k)))\<rparr>
                  (ddb_log_table w))
       \<and> (clock w (ticks w) \<noteq> clock w (Suc (ticks w)) \<longrightarrow>
            map_of (ddb_log_table (snd (fix_encryption_if_incorrect b k version_id w)))
                (''s3://'' @ b @ ''/'' @ k @ ''?versionId='' @ i, clock w (ticks w))
              = Some \<lparr>log_s3_object_path = ''s3://'' @ b @ ''/'' @ k @ ''?versionId='' @ i,
                    log_current_timestamp_utc = clock w (ticks w),
                    log_current_sse_type = cur,
                    log_current_kms_key_arn =
                      (if truthy (s3_sse_kms_key_id obj) then format_opt (s3_sse_kms_key_id obj)
                       else ''None''),
                    log_new_sse_type = new_sse_type_for (info_dual_layer_encryption info),
                    log_new_kms_key_arn = info_kms_key_arn info,
                    log_action_taken = ''Initiated copy with the right key'',
                    log_action_reason =
                      action_reason_for cur (s3_sse_kms_key_id obj)
                        (new_sse_type_for (info_dual_layer_encryption info))
                        (info_kms_key_arn info),
                    log_new_version_id = Some (s3_new_version_id w (s3_objects w (b, k)))\<rparr>
          \<and> map_of (ddb_log_table (snd (fix_encryption_if_incorrect b k version_id w)))
                (''s3://'' @ b @ ''/'' @ k @ ''?versionId='' @ i, clock w (Suc (ticks w)))
              = Some \<lparr>log_s3_object_path = ''s3://'' @ b @ ''/'' @ k @ ''?versionId='' @ i,
                    log_current_timestamp_utc = clock w (Suc (ticks w)),
                    log_current_sse_type = cur,
                    log_current_kms_key_arn =
                      (if truthy (s3_sse_kms_key_id obj) then format_opt (s3_sse_kms_key_id obj)
                       else ''None''),
                    log_new_sse_type = ''N/A'',
                    log_new_kms_key_arn = ''N/A'',
                    log_action_taken = ''Deleted old version with incorrect encryption'',
                    log_action_reason = ''N/A'',
                    log_new_version_id = None\<rparr>)"
proof -
  note eff = versioned_rewrite_effect[OF v ver obj cur pol mis fresh nonempty small]
  let ?run = "fix_encryption_if_incorrect b k version_id w"
  from eff have 1: "fst ?run = Inr ()" by blast
  from eff have 2: "s3_objects (snd ?run)
           = (s3_objects w)((b, k) :=
                \<lparr>s3_version_id = s3_new_version_id w (s3_objects w (b, k)),
                 s3_content = s3_content obj,
                 s3_sse = Some (new_sse_type_for (info_dual_layer_encryption info)),
                 s3_sse_kms_key_id = Some (info_kms_key_arn info)\<rparr>
                # filter (\<lambda>v. s3_version_id v \<noteq> i) (s3_objects w (b, k)))"
    by blast
  from eff have 3: "ddb_log_table (snd ?run)
           = put_item (''s3://'' @ b @ ''/'' @ k @ ''?versionId='' @ i, clock w (Suc (ticks w)))
               \<lparr>log_s3_object_path = ''s3://'' @ b @ ''/'' @ k @ ''?versionId='' @ i,
               log_current_timestamp_utc = clock w (Suc (ticks w)),
               log_current_sse_type = cur,
               log_current_kms_key_arn =
                 (if truthy (s3_sse_kms_key_id obj) then format_opt (s3_sse_kms_key_id obj)
                  else ''None''),
               log_new_sse_type = ''N/A'',
               log_new_kms_key_arn = ''N/A'',
               log_action_taken = ''Deleted old version with incorrect encryption'',
               log_action_reason = ''N/A'',
               log_new_version_id = None\<rparr>
               (put_item (''s3://'' @ b @ ''/'' @ k @ ''?versionId='' @ i, clock w (ticks w))
                  \<lparr>log_s3_object_path = ''s3://'' @ b @ ''/'' @ k @ ''?versionId='' @ i,
                  log_current_timestamp_utc = clock w (ticks w),
                  log_current_sse_type = cur,
                  log_current_kms_key_arn =
                    (if truthy (s3_sse_kms_key_id obj) then format_opt (s3_sse_kms_key_id obj)
                     else ''None''),
                  log_new_sse_type = new_sse_type_for (info_dual_layer_encryption info),
                  log_new_kms_key_arn = info_kms_key_arn info,
                  log_action_taken = ''Initiated copy with the right key'',
                  log_action_reason =
                    action_reason_for cur (s3_sse_kms_key_id obj)
                      (new_sse_type_for (info_dual_layer_encryption info))
                      (info_kms_key_arn info),
                  log_new_version_id = Some (s3_new_version_id w (s3_objects w (b, k)))\<rparr>
                  (ddb_log_table w))"
    by blast
  have 4: "clock w (ticks w) \<noteq> clock w (Suc (ticks w)) \<longrightarrow>
            map_of (ddb_log_table (snd ?run))
                (''s3://'' @ b @ ''/'' @ k @ ''?versionId='' @ i, clock w (ticks w))
              = Some \<lparr>log_s3_object_path = ''s3://'' @ b @ ''/'' @ k @ ''?versionId='' @ i,
                    log_current_timestamp_utc = clock w (ticks w),
                    log_current_sse_type = cur,
                    log_current_kms_key_arn =
                      (if truthy (s3_sse_kms_key_id obj) then format_opt (s3_sse_kms_key_id obj)
                       else ''None''),
                    log_new_sse_type = new_sse_type_for (info_dual_layer_encryption info),
                    log_new_kms_key_arn = info_kms_key_arn info,
                    log_action_taken = ''Initiated copy with the right key'',
                    log_action_reason =
                      action_reason_for cur (s3_sse_kms_key_id obj)
                        (new_sse_type_for (info_dual_layer_encryption info))
                        (info_kms_key_arn info),
                    log_new_version_id = Some (s3_new_version_id w (s3_objects w (b, k)))\<rparr>
          \<and> map_of (ddb_log_table (snd ?run))
                (''s3://'' @ b @ ''/'' @ k @ ''?versionId='' @ i, clock w (Suc (ticks w)))
              = Some \<lparr>log_s3_object_path = ''s3://'' @ b @ ''/'' @ k @ ''?versionId='' @ i,
                    log_current_timestamp_utc = clock w (Suc (ticks w)),
                    log_current_sse_type = cur,
                    log_current_kms_key_arn =
                      (if truthy (s3_sse_kms_key_id obj) then format_opt (s3_sse_kms_key_id obj)
                       else ''None''),
                    log_new_sse_type = ''N/A'',
                    log_new_kms_key_arn = ''N/A'',
                    log_action_taken = ''Deleted old version with incorrect encryption'',
                    log_action_reason = ''N/A'',
                    log_new_version_id = None\<rparr>"
    unfolding 3 by (simp add: put_item_def update_conv')
  from 1 2 3 4 show ?thesis by blast
qed

text \<open>
  The claim C3 as stated asks for distinct version suffixes in the two object paths. On a
  version \<open>v1\<close> with the wrong key, the two log items have the same path, ending in the
  identifier of the original version.
\<close>

theorem remediation_versioned_same_path:
  "map (log_s3_object_path \<circ> snd)
     (ddb_log_table (snd (fix_encryption_if_incorrect ''vb'' ''a/k'' (Some ''v1'') versioned_world)))
     = [''s3://vb/a/k?versionId=v1'', ''s3://vb/a/k?versionId=v1'']
   \<and> map (log_action_taken \<circ> snd)
     (ddb_log_table (snd (fix_encryption_if_incorrect ''vb'' ''a/k'' (Some ''v1'') versioned_world)))
     = [''Initiated copy with the right key'', ''Deleted old version with incorrect encryption'']
   \<and> map (log_new_version_id \<circ> snd)
     (ddb_log_table (snd (fix_encryption_if_incorrect ''vb'' ''a/k'' (Some ''v1'') versioned_world)))
     = [Some ''v2'', None]"
  using versioned_world_run by simp

theorem remediation_versioned_witness:
  "s3_versioning demo_world ''vb''
   \<and> find (\<lambda>v. s3_version_id v = ''v1'') (s3_objects demo_world (''vb'', ''a/k''))
       = Some \<lparr>s3_version_id = ''v1'', s3_content = ''data3'',
               s3_sse = Some ''aws:kms'', s3_sse_kms_key_id = Some ''k0''\<rparr>
   \<and> length ''data3'' \<le> copy_object_limit
   \<and> clock demo_world (ticks demo_world) \<noteq> clock demo_world (Suc (ticks demo_world))
   \<and> fst (fix_encryption_if_incorrect ''vb'' ''a/k'' (Some ''v1'') demo_world) = Inr ()
   \<and> s3_objects (snd (fix_encryption_if_incorrect ''vb'' ''a/k'' (Some ''v1'') demo_world))
        (''vb'', ''a/k'')
       = [\<lparr>s3_version_id = ''v2'', s3_content = ''data3'',
           s3_sse = Some ''aws:kms'', s3_sse_kms_key_id = Some ''k1''\<rparr>]
   \<and> map_option log_action_taken
        (map_of (ddb_log_table
                   (snd (fix_encryption_if_incorrect ''vb'' ''a/k'' (Some ''v1'') demo_world)))
           (''s3://vb/a/k?versionId=v1'', ''T''))
       = Some ''Initiated copy with the right key''
   \<and> map_option log_action_taken
        (map_of (ddb_log_table
                   (snd (fix_encryption_if_incorrect ''vb'' ''a/k'' (Some ''v1'') demo_world)))
           (''s3://vb/a/k?versionId=v1'', ''Ti''))
       = Some ''Deleted old version with incorrect encryption''"
proof -
  let ?obj = "\<lparr>s3_version_id = ''v1'', s3_content = ''data3'',
               s3_sse = Some ''aws:kms'', s3_sse_kms_key_id = Some ''k0''\<rparr>"
  let ?info = "\<lparr>info_kms_key_arn = ''k1'', info_dual_layer_encryption = False\<rparr>"
  let ?run = "fix_encryption_if_incorrect ''vb'' ''a/k'' (Some ''v1'') demo_world"
  have objs: "s3_objects demo_world (''vb'', ''a/k'') = [?obj]"
    by (simp add: demo_world_def)
  have ver: "s3_versioning demo_world ''vb''" by (simp add: demo_world_def)
  have obj: "find (\<lambda>v. s3_version_id v = ''v1'') (s3_objects demo_world (''vb'', ''a/k''))
       = Some ?obj"
    by (simp add: objs)
  have cur: "s3_sse ?obj = Some ''aws:kms''" by simp
  have mis: "\<not> (''aws:kms'' = new_sse_type_for (info_dual_layer_encryption ?info)
                \<and> s3_sse_kms_key_id ?obj = Some (info_kms_key_arn ?info))"
    by simp
  have nv: "s3_new_version_id demo_world vs = ''v2''" for vs
    by (simp add: demo_world_def)
  have fresh: "s3_new_version_id demo_world (s3_objects demo_world (''vb'', ''a/k''))
                  \<notin> s3_version_id ` set (s3_objects demo_world (''vb'', ''a/k''))"
    unfolding nv by (simp add: objs)
  have nonempty: "s3_new_version_id demo_world (s3_objects demo_world (''vb'', ''a/k'')) \<noteq> []"
    unfolding nv by simp
  have small: "length (s3_content ?obj) \<le> copy_object_limit"
    by (simp add: copy_object_limit_def)
  have v: "Some ''v1'' = Some ''v1''" "''v1'' \<noteq> []" by simp_all
  have env: "clock demo_world (ticks demo_world) = ''T''"
    "clock demo_world (Suc (ticks demo_world)) = ''Ti''"
    by (simp_all add: demo_world_def demo_clock_def)
  have ne: "clock demo_world (ticks demo_world) \<noteq> clock demo_world (Suc (ticks demo_world))"
    unfolding env by simp
  note run = remediation_versioned[OF v ver obj cur demo_policy_vk mis fresh nonempty small]
  from run have a: "fst ?run = Inr ()" by blast
  from run have b: "s3_objects (snd ?run)
           = (s3_objects demo_world)((''vb'', ''a/k'') :=
                \<lparr>s3_version_id = s3_new_version_id demo_world (s3_objects demo_world (''vb'', ''a/k'')),
                 s3_content = s3_content ?obj,
                 s3_sse = Some (new_sse_type_for (info_dual_layer_encryption ?info)),
                 s3_sse_kms_key_id = Some (info_kms_key_arn ?info)\<rparr>
                # filter (\<lambda>v. s3_version_id v \<noteq> ''v1'') (s3_objects demo_world (''vb'', ''a/k'')))"
    by blast
  from run ne have c: "map_option log_action_taken
        (map_of (ddb_log_table (snd ?run))
           (''s3://vb/a/k?versionId=v1'', clock demo_world (ticks demo_world)))
       = Some ''Initiated copy with the right key''"
    and d: "map_option log_action_taken
        (map_of (ddb_log_table (snd ?run))
           (''s3://vb/a/k?versionId=v1'', clock demo_world (Suc (ticks demo_world))))
       = Some ''Deleted old version with incorrect encryption''"
    by (simp_all add: put_item_def update_conv')
  have 1: "s3_objects (snd ?run) (''vb'', ''a/k'')
       = [\<lparr>s3_version_id = ''v2'', s3_content = ''data3'',
           s3_sse = Some ''aws:kms'', s3_sse_kms_key_id = Some ''k1''\<rparr>]"
    unfolding b by (simp add: nv objs new_sse_type_for_def)
  from c have 2: "map_option log_action_taken
        (map_of (ddb_log_table (snd ?run)) (''s3://vb/a/k?versionId=v1'', ''T''))
       = Some ''Initiated copy with the right key''"
    unfolding env .
  from d have 3: "map_option log_action_taken
        (map_of (ddb_log_table (snd ?run)) (''s3://vb/a/k?versionId=v1'', ''Ti''))
       = Some ''Deleted old version with incorrect encryption''"
    unfolding env .
  from a ver obj small ne 1 2 3 show ?thesis by simp
qed

subsection \<open>Claim C7\<close>





section \<open>The batch handler\<close>

lemma process_records_outcomes:
  "process_records u mid recs fails w
     = (fails @ replicate (length (filter isl (fst (record_outcomes u recs w)))) mid,
        snd (record_outcomes u recs w))"
proof (induction recs arbitrary: fails w)
  case Nil
  then show ?case by simp
next
  case (Cons rec recs)
  obtain r w1 where f: "fix_encryption_if_incorrect (rec_bucket_name rec)
             (u (rec_object_key rec)) (rec_version_id rec) w = (r, w1)"
    by (cases "fix_encryption_if_incorrect (rec_bucket_name rec)
             (u (rec_object_key rec)) (rec_version_id rec) w") auto
  show ?case
    by (cases r) (simp_all add: f Cons.IH split: prod.splits add: replicate_app_Cons_same)
qed

lemma length_record_outcomes:
  "length (fst (record_outcomes u recs w)) = length recs"
  by (induction recs arbitrary: w) (simp_all add: split_beta)

lemma process_messages_failed:
  "\<exists>fs. fst (process_messages u ms fails w) = fails @ fs
      \<and> set fs = set (failed_message_ids u ms w)
      \<and> ((\<forall>m \<in> set ms. \<forall>recs. body_Records m = Some recs \<longrightarrow> length recs \<le> 1)
           \<longrightarrow> fs = failed_message_ids u ms w)"
proof (induction ms arbitrary: fails w)
  case Nil
  then show ?case by simp
next
  case (Cons m ms)
  show ?case
  proof (cases "body_Records m")
    case None
    from Cons.IH[of fails w] None show ?thesis
      by (simp add: message_failed_def world_after_message_def)
  next
    case (Some recs)
    let ?c = "length (filter isl (fst (record_outcomes u recs w)))"
    let ?w1 = "snd (record_outcomes u recs w)"
    from Cons.IH[of "fails @ replicate ?c (messageId m)" ?w1]
    obtain fs where fs:
      "fst (process_messages u ms (fails @ replicate ?c (messageId m)) ?w1)
         = (fails @ replicate ?c (messageId m)) @ fs"
      "set fs = set (failed_message_ids u ms ?w1)"
      "(\<forall>m \<in> set ms. \<forall>recs. body_Records m = Some recs \<longrightarrow> length recs \<le> 1)
           \<longrightarrow> fs = failed_message_ids u ms ?w1"
      by blast
    have mf: "message_failed u m w \<longleftrightarrow> 0 < ?c"
      by (simp add: message_failed_def Some list_ex_iff filter_empty_conv)
    have wa: "world_after_message u m w = ?w1"
      by (simp add: world_after_message_def Some)
    have c1: "length recs \<le> 1 \<Longrightarrow> ?c \<le> 1"
      using length_filter_le[of isl "fst (record_outcomes u recs w)"]
      by (simp add: length_record_outcomes)
    show ?thesis
    proof (intro exI[of _ "replicate ?c (messageId m) @ fs"] conjI impI)
      show "fst (process_messages u (m # ms) fails w)
              = fails @ replicate ?c (messageId m) @ fs"
        using fs(1) by (simp add: Some process_records_outcomes)
      show "set (replicate ?c (messageId m) @ fs) = set (failed_message_ids u (m # ms) w)"
        using fs(2) mf by (auto simp: wa)
      assume a: "\<forall>m \<in> set (m # ms). \<forall>recs. body_Records m = Some recs \<longrightarrow> length recs \<le> 1"
      then have "?c \<le> 1" using c1 Some by auto
      then have "?c = 0 \<or> ?c = 1" by arith
      moreover from a fs(3) have "fs = failed_message_ids u ms ?w1" by simp
      ultimately show "replicate ?c (messageId m) @ fs = failed_message_ids u (m # ms) w"
        using mf by (auto simp: wa)
    qed
  qed
qed

text \<open>
  Claim C4. The response of the handler has status 200 when no message of the batch
  failed, and otherwise status 500 with a list whose members are exactly the identifiers
  of the failed messages. When every message has at most one record, as the object store
  sends them, that list is the list of the failed messages in the order of the batch.
\<close>

theorem batch_partial_failure:
  "\<exists>fs. set fs = set (failed_message_ids unquote_plus event w)
      \<and> ((\<forall>m \<in> set event. \<forall>recs. body_Records m = Some recs \<longrightarrow> length recs \<le> 1)
           \<longrightarrow> fs = failed_message_ids unquote_plus event w)
      \<and> fst (lambda_handler unquote_plus event w)
          = (if failed_message_ids unquote_plus event w = []
             then \<lparr>statusCode = 200, batchItemFailures = None\<rparr>
             else \<lparr>statusCode = 500, batchItemFailures = Some fs\<rparr>)"
proof -
  from process_messages_failed[of unquote_plus event "[]" w]
  obtain fs where fs: "fst (process_messages unquote_plus event [] w) = fs"
      "set fs = set (failed_message_ids unquote_plus event w)"
      "(\<forall>m \<in> set event. \<forall>recs. body_Records m = Some recs \<longrightarrow> length recs \<le> 1)
           \<longrightarrow> fs = failed_message_ids unquote_plus event w"
    by auto
  from fs(2) have e: "fs = [] \<longleftrightarrow> failed_message_ids unquote_plus event w = []"
    by (metis set_empty)
  have "fst (lambda_handler unquote_plus event w)
          = (if failed_message_ids unquote_plus event w = []
             then \<lparr>statusCode = 200, batchItemFailures = None\<rparr>
             else \<lparr>statusCode = 500, batchItemFailures = Some fs\<rparr>)"
    using fs(1) e by (auto simp: lambda_handler_def split: prod.splits)
  with fs(2,3) show ?thesis by blast
qed

lemma demo_batch_failed:
  "failed_message_ids (\<lambda>s. s) demo_batch demo_world = [''m2'']"
proof -
  let ?w1 = "snd (fix_encryption_if_incorrect ''b'' ''a/x'' None demo_world)"
  let ?obj1 = "\<lparr>s3_version_id = ''null'', s3_content = ''data1'',
             s3_sse = Some ''aws:kms'', s3_sse_kms_key_id = Some ''k1''\<rparr>"
  let ?obj3 = "\<lparr>s3_version_id = ''null'', s3_content = ''data2'',
             s3_sse = Some ''AES256'', s3_sse_kms_key_id = None\<rparr>"
  have g1: "get_object demo_world ''b'' ''a/x'' (if truthy None then None else None) = Inr ?obj1"
    by (simp add: get_object_def demo_world_def)
  from fix_compliant[OF g1 demo_policy_x]
  have f1: "fst (fix_encryption_if_incorrect ''b'' ''a/x'' None demo_world) = Inr ()"
    and o1: "s3_objects ?w1 = s3_objects demo_world"
    and m1: "ddb_mapping_table ?w1 = ddb_mapping_table demo_world"
    by (simp_all add: new_sse_type_for_def)
  have g2: "get_object ?w1 ''b'' ''a/gone'' (if truthy None then None else None) = Inl NoSuchKey"
    by (simp add: get_object_def o1) (simp add: demo_world_def)
  have r2: "fix_encryption_if_incorrect ''b'' ''a/gone'' None ?w1 = (Inl NoSuchKey, ?w1)"
    by (rule fix_get_fails[OF g2])
  have g3: "get_object ?w1 ''b'' ''z/y'' (if truthy None then None else None) = Inr ?obj3"
    by (simp add: get_object_def o1) (simp add: demo_world_def)
  have p3: "get_kms_key_info_for_s3_prefix (ddb_mapping_table ?w1) ''b'' ''z/y'' = None"
    unfolding m1
    by (simp add: get_kms_key_info_for_s3_prefix_def query_prefix_le_def candidates_desc_def
          ddb_page_limit_def mapping_item_size_def demo_world_def
          demo_table_def demo_item_def startswith_def)
  have c3: "s3_sse ?obj3 = Some ''AES256''" by simp
  have f3: "fst (fix_encryption_if_incorrect ''b'' ''z/y'' None ?w1) = Inr ()"
    using fix_unconfigured[OF g3 c3 p3] by simp
  show ?thesis
    by (simp add: demo_batch_def message_failed_def world_after_message_def split_beta
          f1 r2 f3)
qed

lemma demo_batch_single:
  "\<forall>m \<in> set demo_batch. \<forall>recs. body_Records m = Some recs \<longrightarrow> length recs \<le> 1"
  by (simp add: demo_batch_def)

theorem batch_partial_failure_witness:
  "length demo_batch = 3
   \<and> failed_message_ids (\<lambda>s. s) demo_batch demo_world = [''m2'']
   \<and> fst (lambda_handler (\<lambda>s. s) demo_batch demo_world)
       = \<lparr>statusCode = 500, batchItemFailures = Some [''m2'']\<rparr>"
  using batch_partial_failure[of "\<lambda>s. s" demo_batch demo_world] demo_batch_single
  by (auto simp: demo_batch_failed) (simp add: demo_batch_def)

lemma process_messages_append:
  "process_messages u (xs @ ys) fails w
     = (case process_messages u xs fails w of (f1, w1) \<Rightarrow> process_messages u ys f1 w1)"
  by (induction xs arbitrary: fails w) (auto split: option.splits prod.splits)

text \<open>
  Claim C10. A message whose body has no \<open>Records\<close> entry is passed over: the loop goes
  on with the same failures and the same world, the response to a batch is the response
  to the batch without the message, the message does not count as failed, and the
  message alone gives status 200 and leaves the world as it was.
\<close>

theorem no_records_message_skipped:
  assumes "body_Records m = None"
  shows "lambda_handler unquote_plus [m] w
           = (\<lparr>statusCode = 200, batchItemFailures = None\<rparr>, w)
       \<and> process_messages unquote_plus (m # after) fails w
           = process_messages unquote_plus after fails w
       \<and> lambda_handler unquote_plus (before @ m # after) w
           = lambda_handler unquote_plus (before @ after) w
       \<and> \<not> message_failed unquote_plus m w
       \<and> world_after_message unquote_plus m w = w"
  using assms
  by (simp add: lambda_handler_def process_messages_append message_failed_def
        world_after_message_def)

theorem no_records_message_skipped_witness:
  "body_Records test_event_msg = None
   \<and> lambda_handler (\<lambda>s. s) [test_event_msg] demo_world
       = (\<lparr>statusCode = 200, batchItemFailures = None\<rparr>, demo_world)"
proof -
  have b: "body_Records test_event_msg = None" by (simp add: test_event_msg_def)
  from no_records_message_skipped[OF b, of "\<lambda>s. s" demo_world] b show ?thesis by simp
qed

end
